theory Spec2Isabelle
  imports Main "HOL-Library.Word"
begin

section \<open>Strings and regular expressions\<close>

text \<open>
  A JavaScript string is a sequence of UTF-16 code units; \<open>String.prototype.trim\<close> and
  the regular expressions of the validators (which carry no \<open>u\<close> flag) work on code
  units.
\<close>

type_synonym cu = "16 word"
type_synonym jsstring = "cu list"

definition cuc :: "char \<Rightarrow> cu" where
  "cuc c = of_char c"

definition js :: "string \<Rightarrow> jsstring" where
  "js s = map cuc s"

definition is_lower :: "cu \<Rightarrow> bool" where
  "is_lower c = (0x61 \<le> c \<and> c \<le> 0x7A)"

definition is_upper :: "cu \<Rightarrow> bool" where
  "is_upper c = (0x41 \<le> c \<and> c \<le> 0x5A)"

definition is_digit :: "cu \<Rightarrow> bool" where
  "is_digit c = (0x30 \<le> c \<and> c \<le> 0x39)"

definition is_letter :: "cu \<Rightarrow> bool" where
  "is_letter c = (is_lower c \<or> is_upper c)"

text \<open>The class escape \<open>\w\<close>: \<open>[A-Za-z0-9_]\<close>.\<close>

definition is_word_char :: "cu \<Rightarrow> bool" where
  "is_word_char c = (is_lower c \<or> is_upper c \<or> is_digit c \<or> c = 0x5F)"

text \<open>
  The class escape \<open>\s\<close>, which is also what \<open>trim\<close> strips: the WhiteSpace and
  LineTerminator code points of ECMAScript (TAB, LF, VT, FF, CR, SP, NBSP, U+1680,
  U+2000 to U+200A, LS, PS, U+202F, U+205F, U+3000, U+FEFF).
\<close>

definition is_js_space :: "cu \<Rightarrow> bool" where
  "is_js_space c =
     (c \<in> set [0x09, 0x0A, 0x0B, 0x0C, 0x0D, 0x20, 0xA0, 0x1680,
                0x2028, 0x2029, 0x202F, 0x205F, 0x3000, 0xFEFF]
      \<or> (0x2000 \<le> c \<and> c \<le> 0x200A))"

definition trim :: "jsstring \<Rightarrow> jsstring" where
  "trim s = rev (dropWhile is_js_space (rev (dropWhile is_js_space s)))"

subsection \<open>Regular expressions\<close>

text \<open>
  The fragment of the RegExp syntax that the two validators use. Both patterns are
  anchored by \<open>^\<close> and \<open>$\<close> and have no \<open>m\<close> flag, so \<open>test\<close> holds exactly when the whole
  string matches the pattern between the anchors.
\<close>

datatype citem = CWord | CSpace | CChar cu | CRange cu cu

datatype regex = Never | Empty | Lit cu | Class "citem list"
  | Seq regex regex | Alt regex regex | Star regex

fun item_has :: "citem \<Rightarrow> cu \<Rightarrow> bool" where
  "item_has CWord c = is_word_char c"
| "item_has CSpace c = is_js_space c"
| "item_has (CChar x) c = (c = x)"
| "item_has (CRange lo hi) c = (lo \<le> c \<and> c \<le> hi)"

definition class_has :: "citem list \<Rightarrow> cu \<Rightarrow> bool" where
  "class_has items c = list_ex (\<lambda>it. item_has it c) items"

text \<open>
  The \<open>i\<close> flag. Without the \<open>u\<close> flag a code unit \<open>c\<close> matches a set when some member \<open>a\<close>
  of the set has \<open>Canonicalize a = Canonicalize c\<close>, where \<open>Canonicalize\<close> is
  \<open>toUpperCase\<close>, except that a code unit outside ASCII is never mapped into ASCII. The
  sets of the validators have only ASCII members and members without case, so only the
  ASCII part of \<open>Canonicalize\<close> is modelled; two code units then have the same canonical
  form exactly when they are equal or the two cases of one ASCII letter.
\<close>

definition canonicalize :: "cu \<Rightarrow> cu" where
  "canonicalize c = (if is_lower c then c - 0x20 else c)"

definition other_case :: "cu \<Rightarrow> cu" where
  "other_case c = (if is_lower c then c - 0x20 else if is_upper c then c + 0x20 else c)"

definition atom_ok :: "bool \<Rightarrow> (cu \<Rightarrow> bool) \<Rightarrow> cu \<Rightarrow> bool" where
  "atom_ok ic P c = (P c \<or> (ic \<and> P (other_case c)))"

text \<open>Matching by derivatives: \<open>deriv ic c r\<close> matches what \<open>r\<close> matches after \<open>c\<close>.\<close>

fun nullable :: "regex \<Rightarrow> bool" where
  "nullable Never = False"
| "nullable Empty = True"
| "nullable (Lit x) = False"
| "nullable (Class items) = False"
| "nullable (Seq r s) = (nullable r \<and> nullable s)"
| "nullable (Alt r s) = (nullable r \<or> nullable s)"
| "nullable (Star r) = True"

fun deriv :: "bool \<Rightarrow> cu \<Rightarrow> regex \<Rightarrow> regex" where
  "deriv ic c Never = Never"
| "deriv ic c Empty = Never"
| "deriv ic c (Lit x) = (if atom_ok ic (\<lambda>y. y = x) c then Empty else Never)"
| "deriv ic c (Class items) = (if atom_ok ic (class_has items) c then Empty else Never)"
| "deriv ic c (Seq r s) =
     (if nullable r then Alt (Seq (deriv ic c r) s) (deriv ic c s)
      else Seq (deriv ic c r) s)"
| "deriv ic c (Alt r s) = Alt (deriv ic c r) (deriv ic c s)"
| "deriv ic c (Star r) = Seq (deriv ic c r) (Star r)"

text \<open>\<open>/^r$/.test(s)\<close>, with the \<open>i\<close> flag when \<open>ic\<close> holds.\<close>

definition regex_test :: "bool \<Rightarrow> regex \<Rightarrow> jsstring \<Rightarrow> bool" where
  "regex_test ic r s = nullable (foldl (\<lambda>q c. deriv ic c q) r s)"

text \<open>A literal string, \<open>r+\<close>, \<open>r?\<close> and \<open>r{m,n}\<close>.\<close>

definition lits :: "jsstring \<Rightarrow> regex" where
  "lits s = foldr (\<lambda>c r. Seq (Lit c) r) s Empty"

definition plus :: "regex \<Rightarrow> regex" where
  "plus r = Seq r (Star r)"

definition opt :: "regex \<Rightarrow> regex" where
  "opt r = Alt r Empty"

fun rep :: "nat \<Rightarrow> nat \<Rightarrow> regex \<Rightarrow> regex" where
  "rep 0 0 r = Empty"
| "rep 0 (Suc n) r = opt (Seq r (rep 0 n r))"
| "rep (Suc m) 0 r = Never"
| "rep (Suc m) (Suc n) r = Seq r (rep m n r)"

text \<open>\<open>/^\/sitecore\/[\w\s\-/]+$/\<close>\<close>

definition path_regex :: regex where
  "path_regex =
     Seq (lits (js ''/sitecore/''))
         (plus (Class [CWord, CSpace, CChar (cuc CHR ''-''), CChar (cuc CHR ''/'')]))"

text \<open>\<open>/^[a-z]{2}(-[a-z]{2,3})?$/i\<close>\<close>

definition language_regex :: regex where
  "language_regex =
     Seq (rep 2 2 (Class [CRange (cuc CHR ''a'') (cuc CHR ''z'')]))
         (opt (Seq (Lit (cuc CHR ''-''))
                   (rep 2 3 (Class [CRange (cuc CHR ''a'') (cuc CHR ''z'')]))))"

text \<open>The language of a pattern, to state what the matcher decides.\<close>

inductive_set star :: "'a list set \<Rightarrow> 'a list set" for A :: "'a list set" where
  star_nil: "[] \<in> star A"
| star_app: "u \<in> A \<Longrightarrow> v \<in> star A \<Longrightarrow> u @ v \<in> star A"

definition conc :: "'a list set \<Rightarrow> 'a list set \<Rightarrow> 'a list set" where
  "conc A B = {u @ v | u v. u \<in> A \<and> v \<in> B}"

definition singles :: "('a \<Rightarrow> bool) \<Rightarrow> 'a list set" where
  "singles P = {[c] | c. P c}"

fun lang :: "bool \<Rightarrow> regex \<Rightarrow> jsstring set" where
  "lang ic Never = {}"
| "lang ic Empty = {[]}"
| "lang ic (Lit x) = {[c] | c. atom_ok ic (\<lambda>y. y = x) c}"
| "lang ic (Class items) = {[c] | c. atom_ok ic (class_has items) c}"
| "lang ic (Seq r s) = conc (lang ic r) (lang ic s)"
| "lang ic (Alt r s) = lang ic r \<union> lang ic s"
| "lang ic (Star r) = star (lang ic r)"

section \<open>The program\<close>

subsection \<open>JavaScript values\<close>

text \<open>
  The values the SDK can hand to the program: JSON-like data (what a message channel can
  carry), \<open>undefined\<close>, and \<open>Error\<close> instances. Objects are association lists of own
  data properties; there are no functions, accessors, symbols or cycles. A number is
  carried by its \<open>Number::toString\<close> rendering (\<open>0\<close>, \<open>-1.5\<close>, \<open>NaN\<close>, \<open>Infinity\<close>;
  negative zero renders as \<open>0\<close>): the program only tests numbers for truthiness and, in
  \<open>String(error)\<close>, renders them.
\<close>

datatype jsval =
    JUndefined
  | JNull
  | JBool bool
  | JNum jsstring
  | JStr jsstring
  | JArr "jsval list"
  | JObj "(jsstring \<times> jsval) list"
  | JErr "(jsstring \<times> jsval) list"

definition type_error :: "string \<Rightarrow> jsval" where
  "type_error msg = JErr [(js ''name'', JStr (js ''TypeError'')), (js ''message'', JStr (js msg))]"

fun truthy :: "jsval \<Rightarrow> bool" where
  "truthy JUndefined = False"
| "truthy JNull = False"
| "truthy (JBool b) = b"
| "truthy (JNum r) = (r \<noteq> js ''0'' \<and> r \<noteq> js ''NaN'')"
| "truthy (JStr s) = (s \<noteq> [])"
| "truthy (JArr xs) = True"
| "truthy (JObj ps) = True"
| "truthy (JErr ps) = True"

fun nullish :: "jsval \<Rightarrow> bool" where
  "nullish JUndefined = True"
| "nullish JNull = True"
| "nullish _ = False"

fun typeof :: "jsval \<Rightarrow> string" where
  "typeof JUndefined = ''undefined''"
| "typeof JNull = ''object''"
| "typeof (JBool b) = ''boolean''"
| "typeof (JNum r) = ''number''"
| "typeof (JStr s) = ''string''"
| "typeof (JArr xs) = ''object''"
| "typeof (JObj ps) = ''object''"
| "typeof (JErr ps) = ''object''"

fun isArray :: "jsval \<Rightarrow> bool" where
  "isArray (JArr xs) = True"
| "isArray _ = False"

fun instanceof_Error :: "jsval \<Rightarrow> bool" where
  "instanceof_Error (JErr ps) = True"
| "instanceof_Error _ = False"

text \<open>\<open>a || b\<close> and \<open>a ?? b\<close>.\<close>

definition or_else :: "jsval \<Rightarrow> jsval \<Rightarrow> jsval" where
  "or_else a b = (if truthy a then a else b)"

definition nullish_or :: "jsval \<Rightarrow> jsval \<Rightarrow> jsval" where
  "nullish_or a b = (if nullish a then b else a)"

definition own_prop :: "(jsstring \<times> jsval) list \<Rightarrow> jsstring \<Rightarrow> jsval" where
  "own_prop ps k = (case map_of ps k of None \<Rightarrow> JUndefined | Some v \<Rightarrow> v)"

text \<open>
  \<open>v.k\<close> for the property names the program reads (\<open>data\<close>, \<open>resources\<close>, \<open>context\<close>,
  \<open>preview\<close>, \<open>item\<close>, \<open>children\<close>, \<open>results\<close>, \<open>keyField\<close>, \<open>phraseField\<close>, \<open>value\<close>,
  \<open>message\<close>): reading from \<open>null\<close> or \<open>undefined\<close> throws a TypeError, an object gives its
  own property, an \<open>Error\<close> instance falls back to \<open>Error.prototype\<close> for \<open>message\<close> and
  \<open>name\<close>, and no prototype of a primitive or of an array has any of these names.
\<close>

fun get_prop :: "jsval \<Rightarrow> jsstring \<Rightarrow> jsval + jsval" where
  "get_prop JUndefined k = Inl (type_error ''Cannot read properties of undefined'')"
| "get_prop JNull k = Inl (type_error ''Cannot read properties of null'')"
| "get_prop (JObj ps) k = Inr (own_prop ps k)"
| "get_prop (JErr ps) k =
     Inr (case map_of ps k of
            Some v \<Rightarrow> v
          | None \<Rightarrow> if k = js ''message'' then JStr []
                    else if k = js ''name'' then JStr (js ''Error'')
                    else JUndefined)"
| "get_prop (JBool b) k = Inr JUndefined"
| "get_prop (JNum r) k = Inr JUndefined"
| "get_prop (JStr s) k = Inr JUndefined"
| "get_prop (JArr xs) k = Inr JUndefined"

text \<open>\<open>v[0]\<close>: the first element of an array, the first code unit of a string, the own
  property \<open>"0"\<close> of an object.\<close>

fun get_index0 :: "jsval \<Rightarrow> jsval + jsval" where
  "get_index0 JUndefined = Inl (type_error ''Cannot read properties of undefined'')"
| "get_index0 JNull = Inl (type_error ''Cannot read properties of null'')"
| "get_index0 (JArr xs) = Inr (case xs of [] \<Rightarrow> JUndefined | x # _ \<Rightarrow> x)"
| "get_index0 (JStr s) = Inr (case s of [] \<Rightarrow> JUndefined | c # _ \<Rightarrow> JStr [c])"
| "get_index0 (JObj ps) = Inr (own_prop ps (js ''0''))"
| "get_index0 (JErr ps) = Inr (own_prop ps (js ''0''))"
| "get_index0 (JBool b) = Inr JUndefined"
| "get_index0 (JNum r) = Inr JUndefined"

text \<open>Optional chaining \<open>v?.k\<close>: \<open>undefined\<close> when \<open>v\<close> is \<open>null\<close> or \<open>undefined\<close>, the
  plain access otherwise.\<close>

definition opt_chain :: "jsval \<Rightarrow> (jsval \<Rightarrow> jsval + jsval) \<Rightarrow> jsval + jsval" where
  "opt_chain v access = (if nullish v then Inr JUndefined else access v)"

definition bind_sum :: "'e + 'a \<Rightarrow> ('a \<Rightarrow> 'e + 'b) \<Rightarrow> 'e + 'b" where
  "bind_sum m f = (case m of Inl e \<Rightarrow> Inl e | Inr x \<Rightarrow> f x)"

text \<open>
  \<open>String(v)\<close>. A primitive always converts. An array joins the conversions of its
  elements with commas (\<open>null\<close> and \<open>undefined\<close> elements give the empty string). An
  object is converted by its \<open>toString\<close> method: a plain object inherits
  \<open>Object.prototype.toString\<close> and an \<open>Error\<close> instance \<open>Error.prototype.toString\<close>, but
  an own data property named \<open>toString\<close> shadows the inherited method, is not callable,
  and leaves only \<open>valueOf\<close>, which returns no primitive: the conversion throws a
  TypeError (OrdinaryToPrimitive).
\<close>

fun to_string :: "jsval \<Rightarrow> jsval + jsstring"
  and join_elems :: "jsval list \<Rightarrow> jsval + jsstring"
  and prop_string :: "(jsstring \<times> jsval) list \<Rightarrow> jsstring \<Rightarrow> jsstring \<Rightarrow> jsval + jsstring"
where
  "to_string JUndefined = Inr (js ''undefined'')"
| "to_string JNull = Inr (js ''null'')"
| "to_string (JBool b) = Inr (if b then js ''true'' else js ''false'')"
| "to_string (JNum r) = Inr r"
| "to_string (JStr s) = Inr s"
| "to_string (JArr xs) = join_elems xs"
| "to_string (JObj ps) =
     (if map_of ps (js ''toString'') \<noteq> None
      then Inl (type_error ''Cannot convert object to primitive value'')
      else Inr (js ''[object Object]''))"
| "to_string (JErr ps) =
     (if map_of ps (js ''toString'') \<noteq> None
      then Inl (type_error ''Cannot convert object to primitive value'')
      else bind_sum (prop_string ps (js ''name'') (js ''Error'')) (\<lambda>n.
           bind_sum (prop_string ps (js ''message'') []) (\<lambda>m.
           Inr (if n = [] then m else if m = [] then n else n @ js '': '' @ m))))"
| "join_elems [] = Inr []"
| "join_elems (x # xs) =
     bind_sum (if x = JUndefined \<or> x = JNull then Inr [] else to_string x) (\<lambda>s.
       if xs = [] then Inr s
       else bind_sum (join_elems xs) (\<lambda>t. Inr (s @ js '','' @ t)))"
| "prop_string [] k d = Inr d"
| "prop_string ((k', v) # ps) k d =
     (if k' = k then (if v = JUndefined then Inr d else to_string v)
      else prop_string ps k d)"

subsection \<open>Effects: console output, SDK calls, exceptions\<close>

datatype level = LError | LWarn | LLog

text \<open>A console event keeps the level and the leading literal of the call; the other
  arguments are evaluated (their evaluation can throw) but not recorded. \<open>SetUser\<close> and
  \<open>SetIsLoading\<close> are the calls of the state setters of the user hook.\<close>

datatype event =
    Console level string
  | SdkQuery jsstring
  | SdkMutate jsstring jsval
  | SetUser jsval
  | SetIsLoading bool

text \<open>An effectful computation: the events it produced, in order, and either the value
  thrown (\<open>Inl\<close>; for an async function, the rejection reason) or the value returned.\<close>

type_synonym 'a eff = "event list \<times> (jsval + 'a)"

definition eff_ret :: "'a \<Rightarrow> 'a eff" where
  "eff_ret x = ([], Inr x)"

definition eff_lift :: "jsval + 'a \<Rightarrow> 'a eff" where
  "eff_lift r = ([], r)"

definition eff_emit :: "event \<Rightarrow> unit eff" where
  "eff_emit ev = ([ev], Inr ())"

definition eff_bind :: "'a eff \<Rightarrow> ('a \<Rightarrow> 'b eff) \<Rightarrow> 'b eff" where
  "eff_bind m f =
     (case m of
        (t, Inl e) \<Rightarrow> (t, Inl e)
      | (t, Inr x) \<Rightarrow> (case f x of (t', r) \<Rightarrow> (t @ t', r)))"

text \<open>\<open>try { m } catch (error) { handler error }\<close>\<close>

definition eff_catch :: "'a eff \<Rightarrow> (jsval \<Rightarrow> 'a eff) \<Rightarrow> 'a eff" where
  "eff_catch m handler =
     (case m of
        (t, Inl e) \<Rightarrow> (case handler e of (t', r) \<Rightarrow> (t @ t', r))
      | (t, Inr x) \<Rightarrow> (t, Inr x))"

text \<open>\<open>try { m } finally { f }\<close>: \<open>f\<close> runs whatever \<open>m\<close> did; the outcome is that of \<open>m\<close>
  unless \<open>f\<close> throws.\<close>

definition eff_finally :: "'a eff \<Rightarrow> unit eff \<Rightarrow> 'a eff" where
  "eff_finally m f =
     (case m of
        (t, r) \<Rightarrow> (case f of
                     (t', Inl e) \<Rightarrow> (t @ t', Inl e)
                   | (t', Inr u) \<Rightarrow> (t @ t', r)))"

fun eff_map :: "('a \<Rightarrow> 'b eff) \<Rightarrow> 'a list \<Rightarrow> 'b list eff" where
  "eff_map f [] = eff_ret []"
| "eff_map f (x # xs) =
     eff_bind (f x) (\<lambda>y. eff_bind (eff_map f xs) (\<lambda>ys. eff_ret (y # ys)))"

fun eff_filter :: "('a \<Rightarrow> bool eff) \<Rightarrow> 'a list \<Rightarrow> 'a list eff" where
  "eff_filter p [] = eff_ret []"
| "eff_filter p (x # xs) =
     eff_bind (p x) (\<lambda>keep. eff_bind (eff_filter p xs) (\<lambda>ys.
       eff_ret (if keep then x # ys else ys)))"

text \<open>
  The SDK client: \<open>query\<close> and \<open>mutate\<close> return a promise, which either rejects with a
  reason (\<open>Inl\<close>) or resolves to a value (\<open>Inr\<close>). Each operation is awaited at most once
  per call of the functions below, so a function of the arguments is enough.
\<close>

record ClientSDK =
  query :: "jsstring \<Rightarrow> jsval + jsval"
  mutate :: "jsstring \<Rightarrow> jsval \<Rightarrow> jsval + jsval"

definition sdk_query :: "ClientSDK \<Rightarrow> jsstring \<Rightarrow> jsval eff" where
  "sdk_query c name = ([SdkQuery name], query c name)"

definition sdk_mutate :: "ClientSDK \<Rightarrow> jsstring \<Rightarrow> jsval \<Rightarrow> jsval eff" where
  "sdk_mutate c name params = ([SdkMutate name params], mutate c name params)"

subsection \<open>The dictionary library\<close>

definition getErrorMessage :: "jsval \<Rightarrow> jsval + jsval" where
  "getErrorMessage error =
     (if instanceof_Error error then get_prop error (js ''message'')
      else bind_sum (to_string error) (\<lambda>s. Inr (JStr s)))"

definition DICTIONARY_ENTRY_TEMPLATE_ID :: jsstring where
  "DICTIONARY_ENTRY_TEMPLATE_ID = js ''{6D1CD897-1936-4A3A-A511-289A94C2A7B1}''"

record DictionaryItem =
  key :: jsval
  phrase :: jsval

definition getApplicationContext :: "ClientSDK option \<Rightarrow> jsval eff" where
  "getApplicationContext client =
     (case client of
        None \<Rightarrow> eff_ret JNull
      | Some c \<Rightarrow>
          eff_catch
            (eff_bind (sdk_query c (js ''application.context'')) (\<lambda>application.
             eff_bind (eff_lift (opt_chain application (\<lambda>a. get_prop a (js ''data'')))) (\<lambda>d.
             eff_ret (nullish_or d JNull))))
            (\<lambda>error.
             eff_bind (eff_lift (getErrorMessage error)) (\<lambda>_.
             eff_bind (eff_emit (Console LError ''Failed to get application context:'')) (\<lambda>_.
             eff_ret JNull))))"

text \<open>\<open>appContext?.resources?.[0]?.context?.preview\<close>\<close>

definition preview_chain :: "jsval \<Rightarrow> jsval + jsval" where
  "preview_chain appContext =
     bind_sum (opt_chain appContext (\<lambda>v. get_prop v (js ''resources''))) (\<lambda>resources.
     bind_sum (opt_chain resources get_index0) (\<lambda>first.
     bind_sum (opt_chain first (\<lambda>v. get_prop v (js ''context''))) (\<lambda>context.
     opt_chain context (\<lambda>v. get_prop v (js ''preview'')))))"

definition getPreviewContextId :: "ClientSDK option \<Rightarrow> jsval eff" where
  "getPreviewContextId client =
     (case client of
        None \<Rightarrow> eff_ret JNull
      | Some c \<Rightarrow>
          eff_catch
            (eff_bind (getApplicationContext (Some c)) (\<lambda>appContext.
             if \<not> truthy appContext then eff_ret JNull
             else
               eff_bind (eff_lift (preview_chain appContext)) (\<lambda>previewContextId.
               if typeof previewContextId \<noteq> ''string''
               then eff_bind (eff_emit (Console LError
                        ''Preview context ID not found in application context'')) (\<lambda>_.
                    eff_ret JNull)
               else eff_ret previewContextId)))
            (\<lambda>error.
             eff_bind (eff_lift (getErrorMessage error)) (\<lambda>_.
             eff_bind (eff_emit (Console LError ''Failed to get preview context ID:'')) (\<lambda>_.
             eff_ret JNull))))"

definition isValidSitecorePath :: "jsstring \<Rightarrow> bool" where
  "isValidSitecorePath path = regex_test False path_regex path"

definition isValidLanguageCode :: "jsstring \<Rightarrow> bool" where
  "isValidLanguageCode language = regex_test True language_regex language"

definition default_dictionaryPath :: jsstring where
  "default_dictionaryPath = js ''/sitecore/content/ai/cadenceaiconversion/Dictionary/Demo''"

definition default_language :: jsstring where
  "default_language = js ''en''"

text \<open>The template literal of the GraphQL query, with its line breaks and indentation.\<close>

definition graphql_query :: "jsstring \<Rightarrow> jsstring \<Rightarrow> jsstring" where
  "graphql_query dictionaryPath language =
     (let nl = [cuc (CHR 0x0A)]; dq = [cuc (CHR 0x22)]; ind = (\<lambda>n. replicate n (cuc CHR '' ''))
      in js ''{'' @ nl
       @ ind 14 @ js ''item(path:'' @ dq @ dictionaryPath @ dq @ js '', language:'' @ dq
                @ language @ dq @ js '') {'' @ nl
       @ ind 16 @ js ''children(includeTemplateIDs:'' @ dq @ DICTIONARY_ENTRY_TEMPLATE_ID @ dq
                @ js '') {'' @ nl
       @ ind 18 @ js ''results {'' @ nl
       @ ind 20 @ js ''keyField: field(name: '' @ dq @ js ''Key'' @ dq @ js '') {'' @ nl
       @ ind 22 @ js ''value'' @ nl
       @ ind 20 @ js ''},'' @ nl
       @ ind 20 @ js ''phraseField: field(name: '' @ dq @ js ''Phrase'' @ dq @ js '') {'' @ nl
       @ ind 22 @ js ''value'' @ nl
       @ ind 20 @ js ''}'' @ nl
       @ ind 18 @ js ''}'' @ nl
       @ ind 16 @ js ''}'' @ nl
       @ ind 14 @ js ''}'' @ nl
       @ ind 12 @ js ''}'')"

definition graphql_params :: "jsval \<Rightarrow> jsstring \<Rightarrow> jsval" where
  "graphql_params previewContextId q =
     JObj [(js ''params'',
            JObj [(js ''query'', JObj [(js ''sitecoreContextId'', previewContextId)]),
                  (js ''body'', JObj [(js ''query'', JStr q)])])]"

text \<open>\<open>response?.data?.data?.item?.children?.results\<close>\<close>

definition results_chain :: "jsval \<Rightarrow> jsval + jsval" where
  "results_chain response =
     bind_sum (opt_chain response (\<lambda>v. get_prop v (js ''data''))) (\<lambda>d1.
     bind_sum (opt_chain d1 (\<lambda>v. get_prop v (js ''data''))) (\<lambda>d2.
     bind_sum (opt_chain d2 (\<lambda>v. get_prop v (js ''item''))) (\<lambda>item.
     bind_sum (opt_chain item (\<lambda>v. get_prop v (js ''children''))) (\<lambda>children.
     opt_chain children (\<lambda>v. get_prop v (js ''results''))))))"

text \<open>\<open>item.k?.value\<close>: reading \<open>item.k\<close> throws on a \<open>null\<close> or \<open>undefined\<close> item,
  \<open>?.value\<close> does not throw.\<close>

definition read_value :: "jsval \<Rightarrow> jsstring \<Rightarrow> jsval + jsval" where
  "read_value item k =
     bind_sum (get_prop item k) (\<lambda>f. opt_chain f (\<lambda>v. get_prop v (js ''value'')))"

text \<open>The callback of \<open>results.map\<close>.\<close>

definition map_result :: "jsval \<Rightarrow> DictionaryItem eff" where
  "map_result item =
     eff_bind (eff_lift (read_value item (js ''keyField''))) (\<lambda>keyValue.
     eff_bind (eff_lift (read_value item (js ''phraseField''))) (\<lambda>phraseValue.
     let k = or_else keyValue (JStr []); p = or_else phraseValue (JStr []) in
     eff_bind (if \<not> truthy p
               then eff_emit (Console LWarn
                      ''Dictionary item missing Phrase field, skipping item with key:'')
               else eff_ret ()) (\<lambda>_.
     eff_ret \<lparr>key = k, phrase = p\<rparr>)))"

text \<open>\<open>v.trim()\<close>: only a string has a callable \<open>trim\<close>.\<close>

fun call_trim :: "jsval \<Rightarrow> jsval + jsstring" where
  "call_trim (JStr s) = Inr (trim s)"
| "call_trim JUndefined = Inl (type_error ''Cannot read properties of undefined'')"
| "call_trim JNull = Inl (type_error ''Cannot read properties of null'')"
| "call_trim _ = Inl (type_error ''trim is not a function'')"

text \<open>The callback of \<open>.filter\<close>: \<open>item.phrase.trim().length > 0\<close>\<close>

definition keep_item :: "DictionaryItem \<Rightarrow> bool eff" where
  "keep_item item = eff_lift (bind_sum (call_trim (phrase item)) (\<lambda>t. Inr (length t > 0)))"

text \<open>The part of \<open>fetchDictionaryItems\<close> after the GraphQL call: unpacking the
  response, mapping and filtering the results.\<close>

definition unpack_results :: "jsval \<Rightarrow> DictionaryItem list eff" where
  "unpack_results response =
     eff_bind (eff_lift (results_chain response)) (\<lambda>results.
     if \<not> truthy results \<or> \<not> isArray results
     then eff_bind (eff_emit (Console LWarn ''No dictionary items found at path:'')) (\<lambda>_.
          eff_ret [])
     else
       (case results of
          JArr rs \<Rightarrow>
            if length rs = 0
            then eff_bind (eff_emit (Console LWarn ''Dictionary folder is empty at path:''))
                   (\<lambda>_. eff_ret [])
            else eff_bind (eff_map map_result rs) (\<lambda>items. eff_filter keep_item items)
        | _ \<Rightarrow> eff_ret []))"

text \<open>The body of the \<open>try\<close> block of \<open>fetchDictionaryItems\<close>.\<close>

definition fetch_body :: "ClientSDK \<Rightarrow> jsstring \<Rightarrow> jsstring \<Rightarrow> DictionaryItem list eff" where
  "fetch_body c dictionaryPath language =
     eff_bind (getPreviewContextId (Some c)) (\<lambda>previewContextId.
     eff_bind (eff_emit (Console LLog ''Preview Context ID:'')) (\<lambda>_.
     if \<not> truthy previewContextId
     then eff_bind (eff_emit (Console LWarn ''No preview context ID found'')) (\<lambda>_. eff_ret [])
     else
       eff_bind (eff_emit (Console LLog ''Executing GraphQL Query:'')) (\<lambda>_.
       eff_bind (sdk_mutate c (js ''xmc.preview.graphql'')
                   (graphql_params previewContextId (graphql_query dictionaryPath language)))
         (\<lambda>response.
       eff_bind (eff_emit (Console LLog ''GraphQL Response:'')) (\<lambda>_.
       unpack_results response)))))"

definition fetchDictionaryItems ::
  "ClientSDK option \<Rightarrow> jsstring \<Rightarrow> jsstring \<Rightarrow> DictionaryItem list eff" where
  "fetchDictionaryItems client dictionaryPath language =
     (case client of
        None \<Rightarrow>
          eff_bind (eff_emit (Console LError ''Sitecore client is not initialized'')) (\<lambda>_.
          eff_ret [])
      | Some c \<Rightarrow>
          if \<not> isValidSitecorePath dictionaryPath
          then eff_bind (eff_emit (Console LError ''Invalid dictionary path format:'')) (\<lambda>_.
               eff_ret [])
          else if \<not> isValidLanguageCode language
          then eff_bind (eff_emit (Console LError ''Invalid language code format:'')) (\<lambda>_.
               eff_ret [])
          else
            eff_catch (fetch_body c dictionaryPath language)
              (\<lambda>error.
               eff_bind (eff_lift (getErrorMessage error)) (\<lambda>_.
               eff_bind (eff_emit (Console LError ''Failed to fetch dictionary items:'')) (\<lambda>_.
               eff_ret []))))"

subsection \<open>The user hook\<close>

record UseUserReturn =
  user :: jsval
  isLoading :: bool

text \<open>\<open>useState(undefined)\<close> and \<open>useState(true)\<close>\<close>

definition useUser_initial :: UseUserReturn where
  "useUser_initial = \<lparr>user = JUndefined, isLoading = True\<rparr>"

text \<open>
  The effect's async function \<open>fetchUserData\<close>: the calls it makes, in order, and whether
  it rejects. \<open>const { data } = await \<dots>\<close> throws on \<open>null\<close> and \<open>undefined\<close>; the
  \<open>catch\<close> block only logs, and \<open>finally\<close> clears the loading flag.
\<close>

definition fetchUserData_run :: "ClientSDK option \<Rightarrow> bool \<Rightarrow> unit eff" where
  "fetchUserData_run client isInitialized =
     (case client of
        None \<Rightarrow> eff_ret ()
      | Some c \<Rightarrow>
          if \<not> isInitialized then eff_ret ()
          else
            eff_finally
              (eff_catch
                 (eff_bind (eff_emit (SetIsLoading True)) (\<lambda>_.
                  eff_bind (sdk_query c (js ''host.user'')) (\<lambda>response.
                  eff_bind (eff_lift (get_prop response (js ''data''))) (\<lambda>d.
                  eff_emit (SetUser d)))))
                 (\<lambda>error. eff_emit (Console LError ''Failed to fetch user data:'')))
              (eff_emit (SetIsLoading False)))"

text \<open>What a call does to the state of the hook: only the setters write it.\<close>

fun apply_event :: "UseUserReturn \<Rightarrow> event \<Rightarrow> UseUserReturn" where
  "apply_event s (SetUser d) = s\<lparr>user := d\<rparr>"
| "apply_event s (SetIsLoading b) = s\<lparr>isLoading := b\<rparr>"
| "apply_event s (Console l m) = s"
| "apply_event s (SdkQuery name) = s"
| "apply_event s (SdkMutate name params) = s"

text \<open>One run of the effect from the state \<open>s\<close>: the calls made and the state they leave.\<close>

definition fetchUserData ::
  "ClientSDK option \<Rightarrow> bool \<Rightarrow> UseUserReturn \<Rightarrow> event list \<times> UseUserReturn" where
  "fetchUserData client isInitialized s =
     (let t = fst (fetchUserData_run client isInitialized) in (t, foldl apply_event s t))"

section \<open>What the specification says, in its own words\<close>

text \<open>
  The path validator: the string starts with the fixed root and goes on with one or more
  word characters, whitespace, hyphens or slashes.
\<close>

definition spec_sitecore_path :: "jsstring \<Rightarrow> bool" where
  "spec_sitecore_path p =
     (let root = js ''/sitecore/''; rest = drop (length root) p
      in take (length root) p = root \<and> rest \<noteq> [] \<and>
         list_all (\<lambda>c. is_word_char c \<or> is_js_space c \<or> c = cuc CHR ''-'' \<or> c = cuc CHR ''/'')
           rest)"

text \<open>
  The language validator: a two-letter primary code, optionally followed by a hyphen and a
  region code of two or three letters, in either case.
\<close>

definition spec_language_code :: "jsstring \<Rightarrow> bool" where
  "spec_language_code l =
     (length (take 2 l) = 2 \<and> list_all is_letter (take 2 l) \<and>
      (case drop 2 l of
         [] \<Rightarrow> True
       | h # region \<Rightarrow> h = cuc CHR ''-'' \<and> (length region = 2 \<or> length region = 3) \<and>
                        list_all is_letter region))"

text \<open>The three shapes of an accepted language code, for the case analysis.\<close>

fun code_shape :: "jsstring \<Rightarrow> bool" where
  "code_shape [a, b] = (is_letter a \<and> is_letter b)"
| "code_shape [a, b, h, c, d] =
     (is_letter a \<and> is_letter b \<and> h = cuc CHR ''-'' \<and> is_letter c \<and> is_letter d)"
| "code_shape [a, b, h, c, d, e] =
     (is_letter a \<and> is_letter b \<and> h = cuc CHR ''-'' \<and> is_letter c \<and> is_letter d \<and> is_letter e)"
| "code_shape _ = False"

text \<open>
  A field of a response: present when the value is an object (or an \<open>Error\<close> instance)
  that has the key as an own property, missing otherwise. The first entry of a sequence.
\<close>

fun spec_field :: "jsval \<Rightarrow> jsstring \<Rightarrow> jsval option" where
  "spec_field (JObj ps) k = map_of ps k"
| "spec_field (JErr ps) k = map_of ps k"
| "spec_field _ k = None"

fun spec_first :: "jsval \<Rightarrow> jsval option" where
  "spec_first (JArr xs) = (case xs of [] \<Rightarrow> None | x # _ \<Rightarrow> Some x)"
| "spec_first (JStr s) = (case s of [] \<Rightarrow> None | c # _ \<Rightarrow> Some (JStr [c]))"
| "spec_first (JObj ps) = map_of ps (js ''0'')"
| "spec_first (JErr ps) = map_of ps (js ''0'')"
| "spec_first _ = None"

definition bind_opt :: "'a option \<Rightarrow> ('a \<Rightarrow> 'b option) \<Rightarrow> 'b option" where
  "bind_opt m f = (case m of None \<Rightarrow> None | Some x \<Rightarrow> f x)"

text \<open>The nested field \<open>resources[0].context.preview\<close> of an application context.\<close>

definition spec_preview :: "jsval \<Rightarrow> jsval option" where
  "spec_preview ctx =
     bind_opt (spec_field ctx (js ''resources'')) (\<lambda>resources.
     bind_opt (spec_first resources) (\<lambda>first.
     bind_opt (spec_field first (js ''context'')) (\<lambda>context.
     spec_field context (js ''preview''))))"

text \<open>The preview context id of an application context: that field when it is a string,
  \<open>null\<close> otherwise.\<close>

definition preview_id_of :: "jsval \<Rightarrow> jsval" where
  "preview_id_of ctx = (case spec_preview ctx of Some (JStr s) \<Rightarrow> JStr s | _ \<Rightarrow> JNull)"

text \<open>The nested field \<open>data.data.item.children.results\<close> of a GraphQL response.\<close>

definition spec_results :: "jsval \<Rightarrow> jsval option" where
  "spec_results response =
     bind_opt (spec_field response (js ''data'')) (\<lambda>d1.
     bind_opt (spec_field d1 (js ''data'')) (\<lambda>d2.
     bind_opt (spec_field d2 (js ''item'')) (\<lambda>item.
     bind_opt (spec_field item (js ''children'')) (\<lambda>children.
     spec_field children (js ''results'')))))"

text \<open>\<open>field.value\<close> or the empty string, for the \<open>keyField\<close> and \<open>phraseField\<close> of a result.\<close>

definition field_text :: "jsval \<Rightarrow> jsstring \<Rightarrow> jsstring" where
  "field_text r k =
     (case spec_field r k of
        None \<Rightarrow> []
      | Some f \<Rightarrow> (case spec_field f (js ''value'') of Some (JStr s) \<Rightarrow> s | _ \<Rightarrow> []))"

text \<open>
  A well-formed result, after the \<open>GraphQLResponse\<close> interface: an object whose \<open>keyField\<close>
  and \<open>phraseField\<close> are each absent (or \<open>null\<close>, as GraphQL gives for a field the item does
  not have) or an object whose \<open>value\<close> is a string (or absent or \<open>null\<close>).
\<close>

fun wf_value :: "jsval option \<Rightarrow> bool" where
  "wf_value None = True"
| "wf_value (Some (JStr s)) = True"
| "wf_value (Some JNull) = True"
| "wf_value (Some JUndefined) = True"
| "wf_value (Some _) = False"

fun wf_field :: "jsval option \<Rightarrow> bool" where
  "wf_field None = True"
| "wf_field (Some JNull) = True"
| "wf_field (Some JUndefined) = True"
| "wf_field (Some (JObj qs)) = wf_value (map_of qs (js ''value''))"
| "wf_field (Some _) = False"

fun wf_result :: "jsval \<Rightarrow> bool" where
  "wf_result (JObj ps) = (wf_field (map_of ps (js ''keyField'')) \<and> wf_field (map_of ps (js ''phraseField'')))"
| "wf_result _ = False"

definition spec_item :: "jsval \<Rightarrow> DictionaryItem" where
  "spec_item r = \<lparr>key = JStr (field_text r (js ''keyField'')),
                  phrase = JStr (field_text r (js ''phraseField''))\<rparr>"

definition blank :: "jsstring \<Rightarrow> bool" where
  "blank s = (trim s = [])"

text \<open>The list the fetcher is to return: each result mapped in order, the items with a
  blank phrase removed.\<close>

definition spec_items :: "jsval list \<Rightarrow> DictionaryItem list" where
  "spec_items rs = filter (\<lambda>it. case phrase it of JStr s \<Rightarrow> \<not> blank s | _ \<Rightarrow> False)
                     (map spec_item rs)"

fun is_sdk_call :: "event \<Rightarrow> bool" where
  "is_sdk_call (SdkQuery name) = True"
| "is_sdk_call (SdkMutate name params) = True"
| "is_sdk_call (Console l m) = False"
| "is_sdk_call (SetUser d) = False"
| "is_sdk_call (SetIsLoading b) = False"

text \<open>The state of the hook at the moment of its first SDK call: the state \<open>s\<close> it started
  from, after the setter calls made before that SDK call.\<close>

definition state_at_query :: "UseUserReturn \<Rightarrow> event list \<Rightarrow> UseUserReturn" where
  "state_at_query s t = foldl apply_event s (takeWhile (\<lambda>ev. \<not> is_sdk_call ev) t)"

section \<open>Concrete clients and responses\<close>

definition client_of :: "jsval + jsval \<Rightarrow> jsval + jsval \<Rightarrow> ClientSDK" where
  "client_of q m = \<lparr>query = (\<lambda>name. q), mutate = (\<lambda>name params. m)\<rparr>"

definition ctx_response :: jsval where
  "ctx_response =
     JObj [(js ''data'',
       JObj [(js ''resources'',
         JArr [JObj [(js ''context'', JObj [(js ''preview'', JStr (js ''ctx-1''))])]])])]"

definition gql_response :: "jsval \<Rightarrow> jsval" where
  "gql_response results =
     JObj [(js ''data'', JObj [(js ''data'', JObj [(js ''item'',
       JObj [(js ''children'', JObj [(js ''results'', results)])])])])]"

definition entry :: "string \<Rightarrow> string \<Rightarrow> jsval" where
  "entry k p = JObj [(js ''keyField'', JObj [(js ''value'', JStr (js k))]),
                     (js ''phraseField'', JObj [(js ''value'', JStr (js p))])]"

text \<open>A plain object with an own data property \<open>toString\<close>: \<open>{ toString: 1 }\<close>.\<close>

definition unconvertible_reason :: jsval where
  "unconvertible_reason = JObj [(js ''toString'', JNum (js ''1''))]"

text \<open>Results with a padded phrase, a missing key field and a repeated key.\<close>

definition padded_results :: "jsval list" where
  "padded_results =
     [JObj [(js ''phraseField'', JObj [(js ''value'', JStr (js '' Hi ''))])],
      entry ''k'' ''A'', entry ''k'' ''B'']"

section \<open>Verification\<close>

subsection \<open>The matcher decides the language of the pattern\<close>

lemma nullable_lang: "nullable r \<longleftrightarrow> [] \<in> lang ic r"
  by (induction r) (auto simp: conc_def intro: star.star_nil)

lemma star_cons_split:
  assumes "w \<in> star A" and "w = c # t"
  shows "\<exists>u v. t = u @ v \<and> c # u \<in> A \<and> v \<in> star A"
  using assms
proof (induction arbitrary: t rule: star.induct)
  case star_nil
  then show ?case by simp
next
  case (star_app u v)
  show ?case
  proof (cases u)
    case Nil
    with star_app show ?thesis by simp
  next
    case (Cons a u')
    with star_app.prems have "a = c" and "t = u' @ v" by simp_all
    with Cons star_app.hyps show ?thesis by blast
  qed
qed

lemma star_cons_iff:
  "c # t \<in> star A \<longleftrightarrow> (\<exists>u v. t = u @ v \<and> c # u \<in> A \<and> v \<in> star A)"
proof
  assume "c # t \<in> star A"
  then show "\<exists>u v. t = u @ v \<and> c # u \<in> A \<and> v \<in> star A"
    by (rule star_cons_split) simp
next
  assume "\<exists>u v. t = u @ v \<and> c # u \<in> A \<and> v \<in> star A"
  then obtain u v where "t = u @ v" "c # u \<in> A" "v \<in> star A" by blast
  then have "(c # u) @ v \<in> star A" by (intro star.star_app)
  with \<open>t = u @ v\<close> show "c # t \<in> star A" by simp
qed

lemma conc_iff: "w \<in> conc A B \<longleftrightarrow> (\<exists>u v. w = u @ v \<and> u \<in> A \<and> v \<in> B)"
  by (auto simp: conc_def)

lemma conc_cons_iff:
  "c # t \<in> conc A B \<longleftrightarrow>
     (\<exists>u v. t = u @ v \<and> c # u \<in> A \<and> v \<in> B) \<or> ([] \<in> A \<and> c # t \<in> B)"
  unfolding conc_def
  by (auto simp: append_eq_Cons_conv Cons_eq_append_conv)

lemma deriv_lang: "t \<in> lang ic (deriv ic c r) \<longleftrightarrow> c # t \<in> lang ic r"
proof (induction r arbitrary: t)
  case (Seq r s)
  have "t \<in> conc (lang ic (deriv ic c r)) (lang ic s) \<longleftrightarrow>
        (\<exists>u v. t = u @ v \<and> c # u \<in> lang ic r \<and> v \<in> lang ic s)"
    by (simp add: conc_iff Seq.IH)
  with Seq.IH show ?case
    by (simp add: conc_cons_iff nullable_lang [of _ ic])
next
  case (Star r)
  have "t \<in> conc (lang ic (deriv ic c r)) (star (lang ic r)) \<longleftrightarrow>
        (\<exists>u v. t = u @ v \<and> c # u \<in> lang ic r \<and> v \<in> star (lang ic r))"
    by (simp add: conc_iff Star.IH)
  then show ?case
    by (simp add: star_cons_iff)
qed auto

lemma regex_test_lang: "regex_test ic r w \<longleftrightarrow> w \<in> lang ic r"
  unfolding regex_test_def
  by (induction w arbitrary: r) (simp_all add: nullable_lang [of _ ic] deriv_lang)

subsection \<open>Languages of single code units\<close>

lemma nil_conc_singles: "[] \<notin> conc (singles P) B"
  by (simp add: conc_iff singles_def)

lemma cons_conc_singles: "c # v \<in> conc (singles P) B \<longleftrightarrow> P c \<and> v \<in> B"
proof
  assume "c # v \<in> conc (singles P) B"
  then obtain u t where "c # v = u @ t" "u \<in> singles P" "t \<in> B"
    by (auto simp: conc_iff)
  then show "P c \<and> v \<in> B" by (auto simp: singles_def)
next
  assume "P c \<and> v \<in> B"
  then have "[c] \<in> singles P" and "v \<in> B" by (simp_all add: singles_def)
  then have "[c] @ v \<in> conc (singles P) B" unfolding conc_iff by blast
  then show "c # v \<in> conc (singles P) B" by simp
qed

lemma star_singles: "w \<in> star (singles P) \<longleftrightarrow> list_all P w"
proof (induction w)
  case Nil
  show ?case by (simp add: star.star_nil)
next
  case (Cons c w)
  have "c # w \<in> star (singles P) \<longleftrightarrow> P c \<and> w \<in> star (singles P)"
    by (auto simp: star_cons_iff singles_def)
  with Cons show ?case by simp
qed

lemma plus_singles: "w \<in> conc (singles P) (star (singles P)) \<longleftrightarrow> w \<noteq> [] \<and> list_all P w"
  by (cases w) (simp_all add: nil_conc_singles cons_conc_singles star_singles)

lemma lang_Lit_exact: "lang False (Lit x) = singles (\<lambda>c. c = x)"
  by (simp add: singles_def atom_ok_def)

lemma lang_Class: "lang ic (Class items) = singles (atom_ok ic (class_has items))"
  by (simp add: singles_def)

lemma lang_lits: "w \<in> lang False (lits s) \<longleftrightarrow> w = s"
proof (induction s arbitrary: w)
  case Nil
  show ?case by (simp add: lits_def)
next
  case (Cons x s)
  have unf: "lang False (lits (x # s)) = conc (singles (\<lambda>c. c = x)) (lang False (lits s))"
    by (simp only: lits_def foldr.simps o_apply lang.simps(5) lang_Lit_exact)
  show ?case
    by (cases w) (simp_all add: unf nil_conc_singles cons_conc_singles Cons)
qed

lemma conc_assoc: "conc (conc A B) C = conc A (conc B C)"
  unfolding conc_def
  by (auto, metis append.assoc, metis append.assoc)

lemma conc_unit_left: "conc {[]} B = B"
  by (auto simp: conc_def)

lemma conc_union_right: "conc A (B \<union> C) = conc A B \<union> conc A C"
  by (auto simp: conc_def)

lemma conc_exact_prefix:
  "w \<in> conc {s} B \<longleftrightarrow> take (length s) w = s \<and> drop (length s) w \<in> B"
  by (auto simp: conc_iff) (metis append_take_drop_id)

subsection \<open>Case folding on code units\<close>

lemma unat_sub32: "(0x61::cu) \<le> c \<Longrightarrow> unat (c - 0x20) = unat c - 32"
proof -
  assume "(0x61::cu) \<le> c"
  then have "(0x20::cu) \<le> c" by (simp add: word_le_nat_alt)
  then show ?thesis by (simp add: unat_sub)
qed

lemma unat_add32: "c \<le> (0x5A::cu) \<Longrightarrow> unat (c + 0x20) = unat c + 32"
proof -
  assume "c \<le> (0x5A::cu)"
  then have "unat c + unat (0x20::cu) < 2 ^ LENGTH(16)" by (simp add: word_le_nat_alt)
  then have "unat (c + 0x20) = unat c + unat (0x20::cu)" by (simp only: unat_add_lem)
  then show ?thesis by simp
qed

lemma other_case_lower: "is_lower (other_case c) \<longleftrightarrow> is_upper c"
  unfolding other_case_def is_lower_def is_upper_def
  by (auto simp: word_le_nat_alt unat_sub32 unat_add32)

lemma other_case_upper: "is_upper (other_case c) \<longleftrightarrow> is_lower c"
  unfolding other_case_def is_lower_def is_upper_def
  by (auto simp: word_le_nat_alt unat_sub32 unat_add32)

lemma other_case_fixes: "\<not> is_lower c \<Longrightarrow> \<not> is_upper c \<Longrightarrow> other_case c = c"
  by (simp add: other_case_def)

lemma letter_class_ic:
  "atom_ok True (class_has [CRange (cuc CHR ''a'') (cuc CHR ''z'')]) c \<longleftrightarrow> is_letter c"
proof -
  have "class_has [CRange (cuc CHR ''a'') (cuc CHR ''z'')] = is_lower"
    by (rule ext) (simp add: class_has_def cuc_def is_lower_def)
  then show ?thesis
    by (auto simp: atom_ok_def is_letter_def other_case_lower)
qed

lemma hyphen_ic: "atom_ok True (\<lambda>y. y = cuc CHR ''-'') c \<longleftrightarrow> c = cuc CHR ''-''"
proof -
  have h: "\<not> is_lower (cuc CHR ''-'')" "\<not> is_upper (cuc CHR ''-'')"
    by (simp_all add: is_lower_def is_upper_def cuc_def)
  show ?thesis
  proof (cases "is_lower c \<or> is_upper c")
    case True
    then have "is_upper (other_case c) \<or> is_lower (other_case c)"
      by (simp add: other_case_lower other_case_upper)
    with h have "other_case c \<noteq> cuc CHR ''-''" by auto
    then show ?thesis by (simp add: atom_ok_def)
  next
    case False
    then show ?thesis by (simp add: atom_ok_def other_case_fixes)
  qed
qed

subsection \<open>The two validators\<close>

lemma lang_language_regex:
  "lang True language_regex =
     conc (singles is_letter) (conc (singles is_letter)
       (conc (singles (\<lambda>c. c = cuc CHR ''-''))
          (conc (singles is_letter) (conc (singles is_letter)
             (conc (singles is_letter) {[]} \<union> {[]}))) \<union> {[]}))"
proof -
  have L: "lang True (Class [CRange (cuc CHR ''a'') (cuc CHR ''z'')]) = singles is_letter"
    unfolding lang_Class by (rule arg_cong [where f = singles]) (rule ext, rule letter_class_ic)
  have H: "lang True (Lit (cuc CHR ''-'')) = singles (\<lambda>c. c = cuc CHR ''-'')"
    by (simp add: singles_def hyphen_ic)
  have two: "rep 2 2 r = Seq r (Seq r Empty)" for r
    by (simp add: numeral_2_eq_2)
  have three: "rep 2 3 r = Seq r (Seq r (opt (Seq r Empty)))" for r
    by (simp add: numeral_2_eq_2 numeral_3_eq_3)
  show ?thesis
    unfolding language_regex_def two three opt_def lang.simps(5,6,2) L H conc_assoc conc_unit_left
    by (rule refl)
qed

lemma isValidLanguageCode_shape: "isValidLanguageCode l = code_shape l"
  unfolding isValidLanguageCode_def regex_test_lang lang_language_regex
  by (cases l rule: code_shape.cases)
     (simp_all add: cons_conc_singles nil_conc_singles conc_union_right)

lemma spec_language_code_shape: "spec_language_code l = code_shape l"
  unfolding spec_language_code_def
  by (cases l rule: code_shape.cases) (auto split: list.splits)

lemma isValidLanguageCode_spec: "isValidLanguageCode l = spec_language_code l"
  by (simp add: isValidLanguageCode_shape spec_language_code_shape)

lemma path_class:
  "atom_ok False (class_has [CWord, CSpace, CChar (cuc CHR ''-''), CChar (cuc CHR ''/'')]) =
     (\<lambda>c. is_word_char c \<or> is_js_space c \<or> c = cuc CHR ''-'' \<or> c = cuc CHR ''/'')"
  by (rule ext) (simp add: atom_ok_def class_has_def)

lemma isValidSitecorePath_spec: "isValidSitecorePath p = spec_sitecore_path p"
proof -
  have root: "lang False (lits (js ''/sitecore/'')) = {js ''/sitecore/''}"
    by (auto simp: lang_lits)
  show ?thesis
    unfolding isValidSitecorePath_def regex_test_lang path_regex_def plus_def lang.simps(5,7)
      lang_Class path_class root conc_exact_prefix plus_singles spec_sitecore_path_def Let_def
    by (rule refl)
qed

lemma canonicalize_eq_iff:
  "canonicalize a = canonicalize c \<longleftrightarrow> a = c \<or> a = other_case c"
proof -
  have sub_inj: "a - 0x20 = c - 0x20 \<longleftrightarrow> a = c" by simp
  have up: "is_lower x \<Longrightarrow> is_upper (x - 0x20)" for x
    unfolding is_lower_def is_upper_def by (auto simp: word_le_nat_alt unat_sub32)
  have lo: "is_upper x \<Longrightarrow> is_lower (x + 0x20)" for x
    unfolding is_lower_def is_upper_def by (auto simp: word_le_nat_alt unat_add32)
  have dis: "is_lower x \<Longrightarrow> \<not> is_upper x" for x
    unfolding is_lower_def is_upper_def by (auto simp: word_le_nat_alt)
  have shift: "x - 0x20 = y \<longleftrightarrow> x = y + 0x20" for x y :: cu by auto
  show ?thesis
  proof (cases "is_lower a"; cases "is_lower c")
    assume "is_lower a" "is_lower c"
    then show ?thesis
      using up [of c] dis [of a] by (auto simp: canonicalize_def other_case_def)
  next
    assume "is_lower a" "\<not> is_lower c"
    then show ?thesis
      using up [of a] dis [of a] by (auto simp: canonicalize_def other_case_def shift)
  next
    assume "\<not> is_lower a" "is_lower c"
    then show ?thesis
      by (auto simp: canonicalize_def other_case_def)
  next
    assume "\<not> is_lower a" "\<not> is_lower c"
    then show ?thesis
      using lo [of c] by (auto simp: canonicalize_def other_case_def)
  qed
qed

lemma atom_ok_canonicalize:
  "atom_ok True P c \<longleftrightarrow> (\<exists>a. P a \<and> canonicalize a = canonicalize c)"
  by (auto simp: atom_ok_def canonicalize_eq_iff)

lemma snd_eff_ret: "snd (eff_ret x) = Inr x"
  by (simp add: eff_ret_def)

lemma snd_eff_lift: "snd (eff_lift r) = r"
  by (simp add: eff_lift_def)

lemma snd_eff_emit: "snd (eff_emit ev) = Inr ()"
  by (simp add: eff_emit_def)

lemma snd_eff_bind: "snd (eff_bind m f) = bind_sum (snd m) (\<lambda>x. snd (f x))"
  by (cases m) (auto simp: eff_bind_def bind_sum_def split: sum.splits prod.splits)

lemma snd_eff_catch:
  "snd (eff_catch m h) = (case snd m of Inl e \<Rightarrow> snd (h e) | Inr x \<Rightarrow> Inr x)"
  by (cases m) (auto simp: eff_catch_def split: sum.splits prod.splits)

lemma snd_sdk_query: "snd (sdk_query c name) = query c name"
  by (simp add: sdk_query_def)

lemma snd_sdk_mutate: "snd (sdk_mutate c name params) = mutate c name params"
  by (simp add: sdk_mutate_def)

lemmas snd_eff = snd_eff_ret snd_eff_lift snd_eff_emit snd_eff_bind snd_eff_catch
  snd_sdk_query snd_sdk_mutate

lemma bind_sum_Inr: "bind_sum (Inr x) f = f x"
  by (simp add: bind_sum_def)

text \<open>An optional property read never throws, and reads the field when there is one.\<close>

lemma opt_get_field:
  assumes "k \<noteq> js ''message''" and "k \<noteq> js ''name''"
  shows "opt_chain v (\<lambda>a. get_prop a k) =
           Inr (case spec_field v k of Some x \<Rightarrow> x | None \<Rightarrow> JUndefined)"
  using assms by (cases v) (simp_all add: opt_chain_def own_prop_def split: option.splits)

lemma opt_index0:
  "opt_chain v get_index0 = Inr (case spec_first v of Some x \<Rightarrow> x | None \<Rightarrow> JUndefined)"
  by (cases v) (simp_all add: opt_chain_def own_prop_def split: option.splits list.splits)

lemma names_distinct:
  "js ''data'' \<noteq> js ''message''" "js ''data'' \<noteq> js ''name''"
  "js ''resources'' \<noteq> js ''message''" "js ''resources'' \<noteq> js ''name''"
  "js ''context'' \<noteq> js ''message''" "js ''context'' \<noteq> js ''name''"
  "js ''preview'' \<noteq> js ''message''" "js ''preview'' \<noteq> js ''name''"
  "js ''item'' \<noteq> js ''message''" "js ''item'' \<noteq> js ''name''"
  "js ''children'' \<noteq> js ''message''" "js ''children'' \<noteq> js ''name''"
  "js ''results'' \<noteq> js ''message''" "js ''results'' \<noteq> js ''name''"
  "js ''keyField'' \<noteq> js ''message''" "js ''keyField'' \<noteq> js ''name''"
  "js ''phraseField'' \<noteq> js ''message''" "js ''phraseField'' \<noteq> js ''name''"
  "js ''value'' \<noteq> js ''message''" "js ''value'' \<noteq> js ''name''"
  by (simp_all add: js_def cuc_def)

lemma getErrorMessage_Error: "instanceof_Error e \<Longrightarrow> \<exists>m. getErrorMessage e = Inr m"
  by (cases e) (simp_all add: getErrorMessage_def)

lemma instanceof_type_error: "instanceof_Error (type_error msg)"
  by (simp add: type_error_def)

lemma to_string_throws_Error:
  "to_string v = Inl t \<longrightarrow> instanceof_Error t"
  "join_elems xs = Inl t \<longrightarrow> instanceof_Error t"
  "prop_string ps k d = Inl t \<longrightarrow> instanceof_Error t"
  by (induction v and xs and ps k d rule: to_string_join_elems_prop_string.induct)
     (auto simp: bind_sum_def instanceof_type_error split: sum.splits if_splits)

lemma getErrorMessage_throws_Error:
  "getErrorMessage e = Inl t \<Longrightarrow> instanceof_Error t"
  by (cases "instanceof_Error e")
     (insert getErrorMessage_Error [of e] to_string_throws_Error(1) [of e t],
      auto simp: getErrorMessage_def bind_sum_def split: sum.splits)

lemma getApplicationContext_None: "getApplicationContext None = ([], Inr JNull)"
  by (simp add: getApplicationContext_def eff_ret_def)

lemma getApplicationContext_snd:
  "snd (getApplicationContext (Some c)) =
     (case query c (js ''application.context'') of
        Inr application \<Rightarrow>
          Inr (case spec_field application (js ''data'') of
                 Some d \<Rightarrow> nullish_or d JNull
               | None \<Rightarrow> JNull)
      | Inl e \<Rightarrow> (case getErrorMessage e of Inl t \<Rightarrow> Inl t | Inr m \<Rightarrow> Inr JNull))"
  by (simp add: getApplicationContext_def snd_eff opt_get_field names_distinct bind_sum_def
        nullish_or_def split: sum.splits option.splits)

lemma spec_field_falsy: "\<not> truthy v \<Longrightarrow> spec_field v k = None"
  by (cases v) simp_all

lemma spec_preview_falsy: "\<not> truthy v \<Longrightarrow> spec_preview v = None"
  by (simp add: spec_preview_def spec_field_falsy bind_opt_def)

lemma preview_chain_spec:
  "preview_chain v = Inr (case spec_preview v of Some x \<Rightarrow> x | None \<Rightarrow> JUndefined)"
  by (simp add: preview_chain_def spec_preview_def opt_get_field opt_index0 names_distinct
        bind_sum_Inr bind_opt_def split: option.splits)

lemma typeof_string: "typeof v = ''string'' \<longleftrightarrow> (\<exists>s. v = JStr s)"
  by (cases v) simp_all

lemma getApplicationContext_throws_Error:
  "snd (getApplicationContext client) = Inl t \<Longrightarrow> instanceof_Error t"
proof (cases client)
  case None
  assume "snd (getApplicationContext client) = Inl t"
  with None show ?thesis by (simp add: getApplicationContext_None)
next
  case (Some c)
  assume "snd (getApplicationContext client) = Inl t"
  with Some obtain e where "getErrorMessage e = Inl t"
    by (auto simp: getApplicationContext_snd split: sum.splits)
  then show ?thesis by (rule getErrorMessage_throws_Error)
qed

lemma getPreviewContextId_snd:
  "snd (getPreviewContextId client) =
     Inr (case snd (getApplicationContext client) of
            Inr ctx \<Rightarrow> preview_id_of ctx
          | Inl e \<Rightarrow> JNull)"
proof (cases client)
  case None
  then show ?thesis
    by (simp add: getPreviewContextId_def getApplicationContext_None snd_eff_ret
          preview_id_of_def spec_preview_def bind_opt_def)
next
  case (Some c)
  show ?thesis
  proof (cases "snd (getApplicationContext (Some c))")
    case (Inl t)
    then have "instanceof_Error t" by (rule getApplicationContext_throws_Error)
    then obtain m where "getErrorMessage t = Inr m"
      using getErrorMessage_Error by blast
    with Inl Some show ?thesis
      by (simp add: getPreviewContextId_def snd_eff bind_sum_def)
  next
    case (Inr ctx)
    show ?thesis
    proof (cases "truthy ctx")
      case False
      with Inr Some show ?thesis
        by (simp add: getPreviewContextId_def snd_eff bind_sum_def preview_id_of_def
              spec_preview_falsy)
    next
      case True
      show ?thesis
      proof (cases "\<exists>s. spec_preview ctx = Some (JStr s)")
        case True
        then obtain s where "spec_preview ctx = Some (JStr s)" by blast
        with Inr Some \<open>truthy ctx\<close> show ?thesis
          by (simp add: getPreviewContextId_def snd_eff bind_sum_def preview_id_of_def
                preview_chain_spec)
      next
        case False
        then have "typeof (case spec_preview ctx of Some x \<Rightarrow> x | None \<Rightarrow> JUndefined) \<noteq> ''string''"
          by (auto simp: typeof_string split: option.splits)
        moreover from False have "preview_id_of ctx = JNull"
          by (auto simp: preview_id_of_def split: option.splits jsval.splits)
        ultimately show ?thesis
          using Inr Some \<open>truthy ctx\<close>
          by (simp add: getPreviewContextId_def snd_eff bind_sum_def preview_chain_spec)
      qed
    qed
  qed
qed

lemma results_chain_spec:
  "results_chain v = Inr (case spec_results v of Some x \<Rightarrow> x | None \<Rightarrow> JUndefined)"
  by (simp add: results_chain_def spec_results_def opt_get_field names_distinct
        bind_sum_Inr bind_opt_def split: option.splits)

lemma eff_map_snd:
  "\<forall>x \<in> set xs. snd (f x) = Inr (g x) \<Longrightarrow> snd (eff_map f xs) = Inr (map g xs)"
  by (induction xs) (simp_all add: snd_eff bind_sum_def)

lemma eff_filter_snd:
  "\<forall>x \<in> set xs. snd (p x) = Inr (q x) \<Longrightarrow> snd (eff_filter p xs) = Inr (filter q xs)"
  by (induction xs) (simp_all add: snd_eff bind_sum_def)

lemma wf_value_cases:
  "wf_value m \<Longrightarrow> m = None \<or> m = Some JNull \<or> m = Some JUndefined \<or> (\<exists>s. m = Some (JStr s))"
  by (cases m rule: wf_value.cases) simp_all

lemma wf_field_cases:
  "wf_field m \<Longrightarrow> m = None \<or> m = Some JNull \<or> m = Some JUndefined
     \<or> (\<exists>qs. m = Some (JObj qs) \<and> wf_value (map_of qs (js ''value'')))"
  by (cases m rule: wf_field.cases) simp_all

lemma read_value_wf:
  assumes "wf_field (map_of ps k)"
  shows "\<exists>x. read_value (JObj ps) k = Inr x \<and> or_else x (JStr []) = JStr (field_text (JObj ps) k)"
proof -
  from assms consider "map_of ps k = None" | "map_of ps k = Some JNull"
    | "map_of ps k = Some JUndefined"
    | qs where "map_of ps k = Some (JObj qs)" "wf_value (map_of qs (js ''value''))"
    using wf_field_cases [of "map_of ps k"] by auto
  then show ?thesis
  proof cases
    case 4
    from wf_value_cases [OF 4(2)] 4(1) show ?thesis
      by (auto simp: read_value_def bind_sum_def opt_chain_def own_prop_def or_else_def
            field_text_def)
  qed (simp_all add: read_value_def bind_sum_def opt_chain_def own_prop_def or_else_def
        field_text_def)
qed

lemma map_result_wf: "wf_result r \<Longrightarrow> snd (map_result r) = Inr (spec_item r)"
proof (cases r)
  case (JObj ps)
  assume "wf_result r"
  with JObj have k: "wf_field (map_of ps (js ''keyField''))"
    and p: "wf_field (map_of ps (js ''phraseField''))" by simp_all
  from read_value_wf [OF k] obtain kv where
    kv: "read_value (JObj ps) (js ''keyField'') = Inr kv"
        "or_else kv (JStr []) = JStr (field_text (JObj ps) (js ''keyField''))" by blast
  from read_value_wf [OF p] obtain pv where
    pv: "read_value (JObj ps) (js ''phraseField'') = Inr pv"
        "or_else pv (JStr []) = JStr (field_text (JObj ps) (js ''phraseField''))" by blast
  from kv pv show ?thesis
    unfolding JObj map_result_def spec_item_def
    by (simp add: snd_eff bind_sum_def Let_def)
qed simp_all

lemma keep_item_spec_item:
  "snd (keep_item (spec_item r)) =
     Inr (case phrase (spec_item r) of JStr s \<Rightarrow> \<not> blank s | _ \<Rightarrow> False)"
  by (simp add: keep_item_def spec_item_def snd_eff bind_sum_def blank_def)

lemma unpack_results_wf:
  assumes "spec_results response = Some (JArr rs)" and "rs \<noteq> []"
    and "\<forall>r \<in> set rs. wf_result r"
  shows "snd (unpack_results response) = Inr (spec_items rs)"
proof -
  have m: "snd (eff_map map_result rs) = Inr (map spec_item rs)"
    using assms(3) by (intro eff_map_snd) (simp add: map_result_wf)
  have f: "snd (eff_filter keep_item (map spec_item rs)) = Inr (spec_items rs)"
    unfolding spec_items_def by (intro eff_filter_snd) (simp add: keep_item_spec_item)
  from assms(1,2) m f show ?thesis
    by (simp add: unpack_results_def results_chain_spec snd_eff bind_sum_def)
qed

lemma unpack_results_not_array:
  assumes "spec_results response = None \<or> (\<exists>v. spec_results response = Some v \<and> \<not> isArray v)"
  shows "unpack_results response = ([Console LWarn ''No dictionary items found at path:''], Inr [])"
  using assms
  by (auto simp: unpack_results_def results_chain_spec eff_bind_def eff_lift_def eff_emit_def
        eff_ret_def)

lemma unpack_results_empty:
  assumes "spec_results response = Some (JArr [])"
  shows "unpack_results response = ([Console LWarn ''Dictionary folder is empty at path:''], Inr [])"
  using assms
  by (simp add: unpack_results_def results_chain_spec eff_bind_def eff_lift_def eff_emit_def
        eff_ret_def)

lemma fetch_body_snd:
  assumes "snd (getPreviewContextId (Some c)) = Inr pid"
  shows "snd (fetch_body c p l) =
           (if \<not> truthy pid then Inr []
            else bind_sum (mutate c (js ''xmc.preview.graphql'')
                             (graphql_params pid (graphql_query p l)))
                   (\<lambda>response. snd (unpack_results response)))"
  using assms by (simp add: fetch_body_def snd_eff bind_sum_def split: sum.splits)

lemma fetchDictionaryItems_valid_snd:
  assumes "isValidSitecorePath p" and "isValidLanguageCode l"
  shows "snd (fetchDictionaryItems (Some c) p l) =
           (case snd (fetch_body c p l) of
              Inl e \<Rightarrow> (case getErrorMessage e of Inl t \<Rightarrow> Inl t | Inr m \<Rightarrow> Inr [])
            | Inr items \<Rightarrow> Inr items)"
  using assms by (simp add: fetchDictionaryItems_def snd_eff bind_sum_def split: sum.splits)

lemma fetch_unpacks:
  assumes "isValidSitecorePath p" and "isValidLanguageCode l"
    and "snd (getPreviewContextId (Some c)) = Inr pid" and "truthy pid"
    and "mutate c (js ''xmc.preview.graphql'') (graphql_params pid (graphql_query p l))
           = Inr response"
    and "snd (unpack_results response) = Inr items"
  shows "snd (fetchDictionaryItems (Some c) p l) = Inr items"
  using assms by (simp add: fetchDictionaryItems_valid_snd fetch_body_snd bind_sum_def)

text \<open>
  C2. When the stages before it succeed (a client, a valid path and language, a preview
  context id, a GraphQL call that resolves) and the response is well formed with a
  non-empty \<open>results\<close> array, \<open>fetchDictionaryItems\<close> returns exactly the results mapped in
  order to \<open>{ key: keyField.value or "", phrase: phraseField.value or "" }\<close>, without the
  items whose trimmed phrase is empty. The witness is the example of the specification:
  the results \<open>a/Hello\<close> and \<open>b/""\<close> give the single item \<open>a/Hello\<close>.
\<close>

theorem fetch_maps_and_filters:
  assumes "isValidSitecorePath p" and "isValidLanguageCode l"
    and "snd (getPreviewContextId (Some c)) = Inr pid" and "truthy pid"
    and "mutate c (js ''xmc.preview.graphql'') (graphql_params pid (graphql_query p l))
           = Inr response"
    and "spec_results response = Some (JArr rs)" and "rs \<noteq> []"
    and "\<forall>r \<in> set rs. wf_result r"
  shows "snd (fetchDictionaryItems (Some c) p l) = Inr (spec_items rs)"
  using assms(1-5) unpack_results_wf [OF assms(6-8)] by (rule fetch_unpacks)

theorem fetch_maps_and_filters_witness:
  "snd (fetchDictionaryItems
          (Some (client_of (Inr ctx_response)
                   (Inr (gql_response (JArr [entry ''a'' ''Hello'', entry ''b'' ''''])))))
          (js ''/sitecore/d'') (js ''en''))
     = Inr [\<lparr>key = JStr (js ''a''), phrase = JStr (js ''Hello'')\<rparr>]"
proof -
  let ?rs = "[entry ''a'' ''Hello'', entry ''b'' '''']"
  let ?c = "client_of (Inr ctx_response) (Inr (gql_response (JArr ?rs)))"
  have 1: "isValidSitecorePath (js ''/sitecore/d'')" by code_simp
  have 2: "isValidLanguageCode (js ''en'')" by code_simp
  have 3: "snd (getPreviewContextId (Some ?c)) = Inr (JStr (js ''ctx-1''))" by code_simp
  have 4: "truthy (JStr (js ''ctx-1''))" by code_simp
  have 5: "mutate ?c (js ''xmc.preview.graphql'')
             (graphql_params (JStr (js ''ctx-1'')) (graphql_query (js ''/sitecore/d'') (js ''en'')))
           = Inr (gql_response (JArr ?rs))"
    by (simp add: client_of_def)
  have 6: "spec_results (gql_response (JArr ?rs)) = Some (JArr ?rs)" by code_simp
  have 7: "?rs \<noteq> []" by simp
  have 8: "\<forall>r \<in> set ?rs. wf_result r" by code_simp
  have 9: "spec_items ?rs = [\<lparr>key = JStr (js ''a''), phrase = JStr (js ''Hello'')\<rparr>]"
    by code_simp
  from fetch_maps_and_filters [OF 1 2 3 4 5 6 7 8] 9 show ?thesis by simp
qed

text \<open>
  C6. After a GraphQL call that resolves, \<open>fetchDictionaryItems\<close> unpacks
  \<open>response.data.data.item.children.results\<close>: when that field is absent or is not an
  array the result is the empty list, and when it is an empty array the result is the
  empty list too, so the return value does not tell the two apart.
\<close>

theorem fetch_no_results_empty:
  assumes "isValidSitecorePath p" and "isValidLanguageCode l"
    and "snd (getPreviewContextId (Some c)) = Inr pid" and "truthy pid"
    and "mutate c (js ''xmc.preview.graphql'') (graphql_params pid (graphql_query p l))
           = Inr response"
  shows "(spec_results response = None
            \<or> (\<exists>v. spec_results response = Some v \<and> \<not> isArray v)
            \<longrightarrow> snd (fetchDictionaryItems (Some c) p l) = Inr [])
       \<and> (spec_results response = Some (JArr [])
            \<longrightarrow> snd (fetchDictionaryItems (Some c) p l) = Inr [])"
proof (intro conjI impI)
  assume "spec_results response = None \<or> (\<exists>v. spec_results response = Some v \<and> \<not> isArray v)"
  then have "snd (unpack_results response) = Inr []"
    by (simp add: unpack_results_not_array)
  with assms show "snd (fetchDictionaryItems (Some c) p l) = Inr []" by (rule fetch_unpacks)
next
  assume "spec_results response = Some (JArr [])"
  then have "snd (unpack_results response) = Inr []"
    by (simp add: unpack_results_empty)
  with assms show "snd (fetchDictionaryItems (Some c) p l) = Inr []" by (rule fetch_unpacks)
qed

theorem fetch_no_results_empty_witness:
  "snd (fetchDictionaryItems (Some (client_of (Inr ctx_response) (Inr (JObj []))))
          (js ''/sitecore/d'') (js ''en'')) = Inr []
   \<and> snd (fetchDictionaryItems
            (Some (client_of (Inr ctx_response) (Inr (gql_response (JStr (js ''none''))))))
            (js ''/sitecore/d'') (js ''en'')) = Inr []
   \<and> snd (fetchDictionaryItems
            (Some (client_of (Inr ctx_response) (Inr (gql_response (JArr [])))))
            (js ''/sitecore/d'') (js ''en'')) = Inr []"
proof -
  let ?p = "js ''/sitecore/d''" and ?l = "js ''en''" and ?pid = "JStr (js ''ctx-1'')"
  have 1: "isValidSitecorePath ?p" by code_simp
  have 2: "isValidLanguageCode ?l" by code_simp
  have 3: "snd (getPreviewContextId (Some (client_of (Inr ctx_response) m))) = Inr ?pid" for m
    unfolding getPreviewContextId_snd getApplicationContext_snd
    by (simp add: client_of_def) code_simp
  have 4: "truthy ?pid" by code_simp
  have 5: "mutate (client_of (Inr ctx_response) (Inr r)) (js ''xmc.preview.graphql'')
             (graphql_params ?pid (graphql_query ?p ?l)) = Inr r" for r
    by (simp add: client_of_def)
  have a: "spec_results (JObj []) = None" by code_simp
  have b: "spec_results (gql_response (JStr (js ''none''))) = Some (JStr (js ''none''))
           \<and> \<not> isArray (JStr (js ''none''))" by code_simp
  have c: "spec_results (gql_response (JArr [])) = Some (JArr [])" by code_simp
  from fetch_no_results_empty [OF 1 2 3 4 5, of "JObj []"] a
  have A: "snd (fetchDictionaryItems (Some (client_of (Inr ctx_response) (Inr (JObj []))))
          ?p ?l) = Inr []" by simp
  from fetch_no_results_empty [OF 1 2 3 4 5, of "gql_response (JStr (js ''none''))"] b
  have B: "snd (fetchDictionaryItems
            (Some (client_of (Inr ctx_response) (Inr (gql_response (JStr (js ''none''))))))
            ?p ?l) = Inr []" by blast
  from fetch_no_results_empty [OF 1 2 3 4 5, of "gql_response (JArr [])"] c
  have C: "snd (fetchDictionaryItems
            (Some (client_of (Inr ctx_response) (Inr (gql_response (JArr [])))))
            ?p ?l) = Inr []" by simp
  from A B C show ?thesis by simp
qed

lemma spec_items_length:
  "length (spec_items rs) = length (filter (\<lambda>r. \<not> blank (field_text r (js ''phraseField''))) rs)"
  by (induction rs) (simp_all add: spec_items_def spec_item_def)

lemma spec_items_member:
  "r \<in> set rs \<Longrightarrow> \<not> blank (field_text r (js ''phraseField'')) \<Longrightarrow>
     spec_item r \<in> set (spec_items rs)"
  by (simp add: spec_items_def spec_item_def)

text \<open>
  C9. In the list \<open>fetchDictionaryItems\<close> returns for a well-formed response, the phrase
  of an item is the received text itself, with its leading and trailing whitespace, and
  the key plays no part: every result whose phrase is not blank appears, with the key
  it has or \<open>""\<close> when the key field is missing or empty, and the list has one item for
  each such result, so equal keys are all kept.
\<close>

theorem fetch_keeps_phrase_and_key:
  assumes "isValidSitecorePath p" and "isValidLanguageCode l"
    and "snd (getPreviewContextId (Some c)) = Inr pid" and "truthy pid"
    and "mutate c (js ''xmc.preview.graphql'') (graphql_params pid (graphql_query p l))
           = Inr response"
    and "spec_results response = Some (JArr rs)" and "rs \<noteq> []"
    and "\<forall>r \<in> set rs. wf_result r"
  shows "\<exists>items. snd (fetchDictionaryItems (Some c) p l) = Inr items
           \<and> (\<forall>r \<in> set rs. \<not> blank (field_text r (js ''phraseField'')) \<longrightarrow>
                 \<lparr>key = JStr (field_text r (js ''keyField'')),
                  phrase = JStr (field_text r (js ''phraseField''))\<rparr> \<in> set items)
           \<and> length items
               = length (filter (\<lambda>r. \<not> blank (field_text r (js ''phraseField''))) rs)"
proof -
  have "snd (unpack_results response) = Inr (spec_items rs)"
    using assms(6-8) by (rule unpack_results_wf)
  with assms(1-5) have "snd (fetchDictionaryItems (Some c) p l) = Inr (spec_items rs)"
    by (rule fetch_unpacks)
  moreover have "\<forall>r \<in> set rs. \<not> blank (field_text r (js ''phraseField'')) \<longrightarrow>
                 \<lparr>key = JStr (field_text r (js ''keyField'')),
                  phrase = JStr (field_text r (js ''phraseField''))\<rparr> \<in> set (spec_items rs)"
    using spec_items_member [of _ rs] by (auto simp: spec_item_def)
  ultimately show ?thesis
    using spec_items_length [of rs] by blast
qed

theorem fetch_keeps_phrase_and_key_witness:
  "\<exists>items. snd (fetchDictionaryItems
                  (Some (client_of (Inr ctx_response) (Inr (gql_response (JArr padded_results)))))
                  (js ''/sitecore/d'') (js ''en'')) = Inr items
     \<and> \<lparr>key = JStr [], phrase = JStr (js '' Hi '')\<rparr> \<in> set items
     \<and> \<lparr>key = JStr (js ''k''), phrase = JStr (js ''A'')\<rparr> \<in> set items
     \<and> \<lparr>key = JStr (js ''k''), phrase = JStr (js ''B'')\<rparr> \<in> set items
     \<and> length items = 3"
proof -
  let ?p = "js ''/sitecore/d''" and ?l = "js ''en''" and ?pid = "JStr (js ''ctx-1'')"
  let ?c = "client_of (Inr ctx_response) (Inr (gql_response (JArr padded_results)))"
  let ?ph = "\<lambda>r. field_text r (js ''phraseField'')"
  let ?ke = "\<lambda>r. field_text r (js ''keyField'')"
  have 1: "isValidSitecorePath ?p" by code_simp
  have 2: "isValidLanguageCode ?l" by code_simp
  have 3: "snd (getPreviewContextId (Some ?c)) = Inr ?pid" by code_simp
  have 4: "truthy ?pid" by code_simp
  have 5: "mutate ?c (js ''xmc.preview.graphql'') (graphql_params ?pid (graphql_query ?p ?l))
             = Inr (gql_response (JArr padded_results))"
    by (simp add: client_of_def)
  have 6: "spec_results (gql_response (JArr padded_results)) = Some (JArr padded_results)"
    by code_simp
  have 7: "padded_results \<noteq> []" by (simp add: padded_results_def)
  have 8: "\<forall>r \<in> set padded_results. wf_result r" by code_simp
  from fetch_keeps_phrase_and_key [OF 1 2 3 4 5 6 7 8] obtain items where
    it: "snd (fetchDictionaryItems (Some ?c) ?p ?l) = Inr items"
    and mem: "\<forall>r \<in> set padded_results. \<not> blank (?ph r) \<longrightarrow>
                \<lparr>key = JStr (?ke r), phrase = JStr (?ph r)\<rparr> \<in> set items"
    and len: "length items = length (filter (\<lambda>r. \<not> blank (?ph r)) padded_results)"
    by blast
  have e: "padded_results ! 0 \<in> set padded_results" "padded_results ! 1 \<in> set padded_results"
    "padded_results ! 2 \<in> set padded_results"
    by (simp_all add: padded_results_def)
  have v0: "\<not> blank (?ph (padded_results ! 0))" "?ke (padded_results ! 0) = []"
    "?ph (padded_results ! 0) = js '' Hi ''" by code_simp+
  have v1: "\<not> blank (?ph (padded_results ! 1))" "?ke (padded_results ! 1) = js ''k''"
    "?ph (padded_results ! 1) = js ''A''" by code_simp+
  have v2: "\<not> blank (?ph (padded_results ! 2))" "?ke (padded_results ! 2) = js ''k''"
    "?ph (padded_results ! 2) = js ''B''" by code_simp+
  have n: "length (filter (\<lambda>r. \<not> blank (?ph r)) padded_results) = 3" by code_simp
  from mem e(1) v0 have m0: "\<lparr>key = JStr [], phrase = JStr (js '' Hi '')\<rparr> \<in> set items"
    by metis
  from mem e(2) v1 have m1: "\<lparr>key = JStr (js ''k''), phrase = JStr (js ''A'')\<rparr> \<in> set items"
    by metis
  from mem e(3) v2 have m2: "\<lparr>key = JStr (js ''k''), phrase = JStr (js ''B'')\<rparr> \<in> set items"
    by metis
  from it m0 m1 m2 len n show ?thesis by auto
qed

text \<open>
  C4. With a client, a path that does not match \<open>^/sitecore/[\w\s\-/]+$\<close> makes
  \<open>fetchDictionaryItems\<close> return the empty list after one console error and no SDK call;
  and the validator accepts exactly the strings that start with \<open>/sitecore/\<close> and go on
  with one or more word characters, whitespace, hyphens or slashes.
\<close>

theorem invalid_path_no_query:
  "isValidSitecorePath p = spec_sitecore_path p
   \<and> (\<not> spec_sitecore_path p \<longrightarrow>
        fetchDictionaryItems (Some c) p l
          = ([Console LError ''Invalid dictionary path format:''], Inr [])
        \<and> filter is_sdk_call (fst (fetchDictionaryItems (Some c) p l)) = [])"
  by (simp add: isValidSitecorePath_spec fetchDictionaryItems_def eff_bind_def eff_emit_def
        eff_ret_def)

theorem invalid_path_no_query_witness:
  "\<not> isValidSitecorePath (js ''/sitecore/x\") { y'')
   \<and> fetchDictionaryItems (Some (client_of (Inr ctx_response) (Inr (gql_response (JArr []))))) 
        (js ''/sitecore/x\") { y'') (js ''en'')
       = ([Console LError ''Invalid dictionary path format:''], Inr [])
   \<and> isValidSitecorePath (js ''/sitecore/content/My Site/a-b_c'')"
proof -
  have n: "\<not> spec_sitecore_path (js ''/sitecore/x\") { y'')" by code_simp
  have y: "spec_sitecore_path (js ''/sitecore/content/My Site/a-b_c'')" by code_simp
  from invalid_path_no_query [of "js ''/sitecore/x\") { y''"
      "client_of (Inr ctx_response) (Inr (gql_response (JArr [])))" "js ''en''"] n
    invalid_path_no_query [of "js ''/sitecore/content/My Site/a-b_c''"] y
  show ?thesis by simp
qed

text \<open>
  C5. With a client and a valid path, a language that does not match
  \<open>^[a-z]{2}(-[a-z]{2,3})?$\<close>, case-insensitively, makes \<open>fetchDictionaryItems\<close> return the
  empty list (after one console error, with no SDK call); and the validator accepts
  exactly a two-letter primary code, optionally followed by a hyphen and a region code of
  two or three letters, in either case.
\<close>

theorem invalid_language_empty:
  "isValidLanguageCode l = spec_language_code l
   \<and> (isValidSitecorePath p \<and> \<not> spec_language_code l \<longrightarrow>
        fetchDictionaryItems (Some c) p l
          = ([Console LError ''Invalid language code format:''], Inr []))"
  by (simp add: isValidLanguageCode_spec fetchDictionaryItems_def eff_bind_def eff_emit_def
        eff_ret_def)

theorem invalid_language_empty_witness:
  "\<not> isValidLanguageCode (js ''english'')
   \<and> fetchDictionaryItems (Some (client_of (Inr ctx_response) (Inr (gql_response (JArr [])))))
        (js ''/sitecore/d'') (js ''english'')
       = ([Console LError ''Invalid language code format:''], Inr [])
   \<and> isValidLanguageCode (js ''EN-us'') \<and> isValidLanguageCode (js ''fr'')
   \<and> isValidLanguageCode (js ''es-ESP'') \<and> \<not> isValidLanguageCode (js ''en_US'')"
proof -
  have p: "isValidSitecorePath (js ''/sitecore/d'')" by code_simp
  have s: "\<not> spec_language_code (js ''english'')" "spec_language_code (js ''EN-us'')"
    "spec_language_code (js ''fr'')" "spec_language_code (js ''es-ESP'')"
    "\<not> spec_language_code (js ''en_US'')" by code_simp+
  from invalid_language_empty [of "js ''english''" "js ''/sitecore/d''"
      "client_of (Inr ctx_response) (Inr (gql_response (JArr [])))"] p s(1)
    invalid_language_empty [of "js ''EN-us''"] invalid_language_empty [of "js ''fr''"]
    invalid_language_empty [of "js ''es-ESP''"] invalid_language_empty [of "js ''en_US''"]
    s(2-5)
  show ?thesis by simp
qed

text \<open>
  C10. When the query resolves, \<open>getApplicationContext\<close> returns the \<open>data\<close> field of the
  response, not the response, and \<open>null\<close> when that field is \<open>null\<close>, \<open>undefined\<close> or
  missing, which a caller cannot tell from a failed query.
\<close>

theorem getApplicationContext_payload:
  assumes "query c (js ''application.context'') = Inr response"
  shows "snd (getApplicationContext (Some c)) =
           Inr (case spec_field response (js ''data'') of
                  None \<Rightarrow> JNull
                | Some d \<Rightarrow> if d = JNull \<or> d = JUndefined then JNull else d)"
proof -
  have "nullish_or d JNull = (if d = JNull \<or> d = JUndefined then JNull else d)" for d
    by (cases d) (simp_all add: nullish_or_def)
  with assms show ?thesis
    by (simp add: getApplicationContext_snd split: option.splits)
qed

theorem getApplicationContext_payload_witness:
  "snd (getApplicationContext (Some (client_of (Inr ctx_response) (Inr JNull))))
     = Inr (JObj [(js ''resources'',
              JArr [JObj [(js ''context'', JObj [(js ''preview'', JStr (js ''ctx-1''))])]])])
   \<and> snd (getApplicationContext
            (Some (client_of (Inr (JObj [(js ''data'', JNull)])) (Inr JNull)))) = Inr JNull
   \<and> snd (getApplicationContext (Some (client_of (Inr (JObj [])) (Inr JNull)))) = Inr JNull"
proof -
  have q: "query (client_of (Inr r) m) (js ''application.context'') = Inr r" for r m
    by (simp add: client_of_def)
  have a: "(case spec_field ctx_response (js ''data'') of
                  None \<Rightarrow> JNull
                | Some d \<Rightarrow> if d = JNull \<or> d = JUndefined then JNull else d)
           = JObj [(js ''resources'',
              JArr [JObj [(js ''context'', JObj [(js ''preview'', JStr (js ''ctx-1''))])]])]"
    by code_simp
  have b: "spec_field (JObj [(js ''data'', JNull)]) (js ''data'') = Some JNull" by code_simp
  have c: "spec_field (JObj []) (js ''data'') = None" by code_simp
  from getApplicationContext_payload [OF q, of ctx_response "Inr JNull"] a
    getApplicationContext_payload [OF q, of "JObj [(js ''data'', JNull)]" "Inr JNull"] b
    getApplicationContext_payload [OF q, of "JObj []" "Inr JNull"] c
  show ?thesis by simp
qed

text \<open>
  C3. \<open>getPreviewContextId\<close> never rejects. It returns \<open>null\<close> when there is no
  application context (no client, a failed query, a \<open>null\<close> payload) and when the nested
  field \<open>resources[0].context.preview\<close> is missing at any level or is not a string;
  otherwise it returns that string. In particular a context without \<open>resources\<close> gives
  \<open>null\<close>.
\<close>

theorem getPreviewContextId_spec:
  "snd (getPreviewContextId client) =
     Inr (case snd (getApplicationContext client) of
            Inr ctx \<Rightarrow> (case spec_preview ctx of Some (JStr s) \<Rightarrow> JStr s | _ \<Rightarrow> JNull)
          | Inl e \<Rightarrow> JNull)
   \<and> (query c (js ''application.context'') = Inr response
        \<and> spec_field response (js ''data'') = Some ctx
        \<and> spec_field ctx (js ''resources'') = None
      \<longrightarrow> snd (getPreviewContextId (Some c)) = Inr JNull)"
proof (intro conjI impI)
  show "snd (getPreviewContextId client) =
     Inr (case snd (getApplicationContext client) of
            Inr ctx \<Rightarrow> (case spec_preview ctx of Some (JStr s) \<Rightarrow> JStr s | _ \<Rightarrow> JNull)
          | Inl e \<Rightarrow> JNull)"
    unfolding getPreviewContextId_snd preview_id_of_def by (rule refl)
next
  assume a: "query c (js ''application.context'') = Inr response
        \<and> spec_field response (js ''data'') = Some ctx
        \<and> spec_field ctx (js ''resources'') = None"
  then have "spec_preview ctx = None"
    by (simp add: spec_preview_def bind_opt_def)
  moreover have "spec_preview JNull = None"
    by (simp add: spec_preview_def bind_opt_def)
  ultimately show "snd (getPreviewContextId (Some c)) = Inr JNull"
    using a
    by (simp add: getPreviewContextId_snd getApplicationContext_snd preview_id_of_def
          nullish_or_def)
qed

theorem getPreviewContextId_spec_witness:
  "snd (getPreviewContextId
          (Some (client_of (Inr (JObj [(js ''data'', JObj [(js ''id'', JStr (js ''app''))])]))
                   (Inr JNull)))) = Inr JNull
   \<and> snd (getPreviewContextId (Some (client_of (Inr ctx_response) (Inr JNull))))
       = Inr (JStr (js ''ctx-1''))
   \<and> snd (getPreviewContextId None) = Inr JNull"
proof -
  let ?ctx = "JObj [(js ''id'', JStr (js ''app''))]"
  let ?r = "JObj [(js ''data'', ?ctx)]"
  have q: "query (client_of (Inr ?r) (Inr JNull)) (js ''application.context'') = Inr ?r"
    by (simp add: client_of_def)
  have d: "spec_field ?r (js ''data'') = Some ?ctx" by code_simp
  have n: "spec_field ?ctx (js ''resources'') = None" by code_simp
  have g: "(case snd (getApplicationContext (Some (client_of (Inr ctx_response) (Inr JNull)))) of
            Inr ctx \<Rightarrow> (case spec_preview ctx of Some (JStr s) \<Rightarrow> JStr s | _ \<Rightarrow> JNull)
          | Inl e \<Rightarrow> JNull) = JStr (js ''ctx-1'')" by code_simp
  have h: "(case snd (getApplicationContext None) of
            Inr ctx \<Rightarrow> (case spec_preview ctx of Some (JStr s) \<Rightarrow> JStr s | _ \<Rightarrow> JNull)
          | Inl e \<Rightarrow> JNull) = JNull" by code_simp
  from getPreviewContextId_spec [of _ "client_of (Inr ?r) (Inr JNull)" ?r ?ctx] q d n
  have A: "snd (getPreviewContextId (Some (client_of (Inr ?r) (Inr JNull)))) = Inr JNull"
    by blast
  from getPreviewContextId_spec [of "Some (client_of (Inr ctx_response) (Inr JNull))"] g
  have B: "snd (getPreviewContextId (Some (client_of (Inr ctx_response) (Inr JNull))))
       = Inr (JStr (js ''ctx-1''))" by simp
  from getPreviewContextId_spec [of None] h
  have C: "snd (getPreviewContextId None) = Inr JNull" by simp
  from A B C show ?thesis by simp
qed

lemma get_data_cases:
  "get_prop v (js ''data'') =
     (if v = JNull \<or> v = JUndefined
      then Inl (type_error (if v = JNull then ''Cannot read properties of null''
                            else ''Cannot read properties of undefined''))
      else Inr (case spec_field v (js ''data'') of Some d \<Rightarrow> d | None \<Rightarrow> JUndefined))"
  by (cases v) (simp_all add: own_prop_def names_distinct split: option.splits)

lemma fetchUserData_run_idle:
  "client = None \<or> \<not> init \<Longrightarrow> fetchUserData_run client init = ([], Inr ())"
  by (cases client) (auto simp: fetchUserData_run_def eff_ret_def)

lemma fetchUserData_run_trace:
  "fetchUserData_run (Some c) True =
     ([SetIsLoading True, SdkQuery (js ''host.user'')]
        @ (case query c (js ''host.user'') of
             Inl reason \<Rightarrow> [Console LError ''Failed to fetch user data:'']
           | Inr response \<Rightarrow>
               if response = JNull \<or> response = JUndefined
               then [Console LError ''Failed to fetch user data:'']
               else [SetUser (case spec_field response (js ''data'') of
                                Some d \<Rightarrow> d | None \<Rightarrow> JUndefined)])
        @ [SetIsLoading False],
      Inr ())"
  by (cases "query c (js ''host.user'')")
     (simp_all add: fetchUserData_run_def eff_finally_def eff_catch_def eff_bind_def
        eff_emit_def eff_lift_def sdk_query_def get_data_cases)

text \<open>
  C8. The user hook starts loading with no user. A run of its effect without a client,
  or before initialisation, makes no call and changes nothing. Otherwise the run first
  marks loading (\<open>setIsLoading(true)\<close>), so the hook is loading when the query is issued;
  then it issues exactly one SDK call, the query \<open>host.user\<close>; then it stores the \<open>data\<close>
  field of the response (\<open>setUser\<close>) when the query resolves to a value that can be
  destructured, or logs an error and leaves the user as it was when the query rejects;
  and last it clears loading (\<open>setIsLoading(false)\<close>). The run never rejects, and ends
  with \<open>isLoading\<close> false.
\<close>

theorem useUser_effect:
  "isLoading useUser_initial \<and> user useUser_initial = JUndefined
   \<and> snd (fetchUserData_run client init) = Inr ()
   \<and> (client = None \<or> \<not> init \<longrightarrow> fetchUserData client init s = ([], s))
   \<and> (init \<longrightarrow>
         fst (fetchUserData (Some c) init s) =
           [SetIsLoading True, SdkQuery (js ''host.user'')]
           @ (case query c (js ''host.user'') of
                Inl reason \<Rightarrow> [Console LError ''Failed to fetch user data:'']
              | Inr response \<Rightarrow>
                  if response = JNull \<or> response = JUndefined
                  then [Console LError ''Failed to fetch user data:'']
                  else [SetUser (case spec_field response (js ''data'') of
                                   Some d \<Rightarrow> d | None \<Rightarrow> JUndefined)])
           @ [SetIsLoading False]
       \<and> state_at_query s (fst (fetchUserData (Some c) init s)) = s\<lparr>isLoading := True\<rparr>
       \<and> \<not> isLoading (snd (fetchUserData (Some c) init s))
       \<and> filter is_sdk_call (fst (fetchUserData (Some c) init s)) = [SdkQuery (js ''host.user'')]
       \<and> user (snd (fetchUserData (Some c) init s)) =
           (case query c (js ''host.user'') of
              Inl reason \<Rightarrow> user s
            | Inr response \<Rightarrow>
                if response = JNull \<or> response = JUndefined then user s
                else (case spec_field response (js ''data'') of
                        Some d \<Rightarrow> d | None \<Rightarrow> JUndefined)))"
proof (intro conjI impI)
  show "isLoading useUser_initial" and "user useUser_initial = JUndefined"
    by (simp_all add: useUser_initial_def)
  show "snd (fetchUserData_run client init) = Inr ()"
  proof (cases "client = None \<or> \<not> init")
    case True
    then show ?thesis by (simp add: fetchUserData_run_idle)
  next
    case False
    then obtain c' where "client = Some c'" and "init" by auto
    then show ?thesis by (simp add: fetchUserData_run_trace)
  qed
  show "fetchUserData client init s = ([], s)" if "client = None \<or> \<not> init"
    using that by (simp add: fetchUserData_def fetchUserData_run_idle)
next
  assume init
  let ?t = "fst (fetchUserData (Some c) init s)"
  show t: "?t =
           [SetIsLoading True, SdkQuery (js ''host.user'')]
           @ (case query c (js ''host.user'') of
                Inl reason \<Rightarrow> [Console LError ''Failed to fetch user data:'']
              | Inr response \<Rightarrow>
                  if response = JNull \<or> response = JUndefined
                  then [Console LError ''Failed to fetch user data:'']
                  else [SetUser (case spec_field response (js ''data'') of
                                   Some d \<Rightarrow> d | None \<Rightarrow> JUndefined)])
           @ [SetIsLoading False]"
    using \<open>init\<close> by (simp add: fetchUserData_def fetchUserData_run_trace Let_def)
  show "state_at_query s ?t = s\<lparr>isLoading := True\<rparr>"
    unfolding t by (simp add: state_at_query_def)
  have s': "snd (fetchUserData (Some c) init s) = foldl apply_event s ?t"
    by (simp add: fetchUserData_def Let_def)
  show "\<not> isLoading (snd (fetchUserData (Some c) init s))"
    unfolding s' t by (simp split: sum.splits)
  show "filter is_sdk_call ?t = [SdkQuery (js ''host.user'')]"
    unfolding t by (simp split: sum.splits)
  show "user (snd (fetchUserData (Some c) init s)) =
           (case query c (js ''host.user'') of
              Inl reason \<Rightarrow> user s
            | Inr response \<Rightarrow>
                if response = JNull \<or> response = JUndefined then user s
                else (case spec_field response (js ''data'') of
                        Some d \<Rightarrow> d | None \<Rightarrow> JUndefined))"
    unfolding s' t by (simp split: sum.splits)
qed

theorem useUser_effect_witness:
  "(let r = fetchUserData
              (Some (client_of
                 (Inr (JObj [(js ''data'', JObj [(js ''name'', JStr (js ''X''))])]))
                 (Inr JNull)))
              True useUser_initial
    in fst r = [SetIsLoading True, SdkQuery (js ''host.user''),
                SetUser (JObj [(js ''name'', JStr (js ''X''))]), SetIsLoading False]
     \<and> isLoading (state_at_query useUser_initial (fst r))
     \<and> \<not> isLoading (snd r)
     \<and> spec_field (user (snd r)) (js ''name'') = Some (JStr (js ''X'')))
   \<and> (let r = fetchUserData (Some (client_of (Inl (type_error ''offline'')) (Inr JNull)))
                 True useUser_initial
      in fst r = [SetIsLoading True, SdkQuery (js ''host.user''),
                  Console LError ''Failed to fetch user data:'', SetIsLoading False]
       \<and> \<not> isLoading (snd r) \<and> user (snd r) = JUndefined)
   \<and> (let r = fetchUserData None True useUser_initial
      in fst r = [] \<and> isLoading (snd r) \<and> user (snd r) = JUndefined)"
proof -
  let ?u = "JObj [(js ''name'', JStr (js ''X''))]"
  let ?r = "JObj [(js ''data'', ?u)]"
  let ?ok = "client_of (Inr ?r) (Inr JNull)"
  let ?bad = "client_of (Inl (type_error ''offline'')) (Inr JNull)"
  have q1: "query ?ok (js ''host.user'') = Inr ?r" by (simp add: client_of_def)
  have q2: "query ?bad (js ''host.user'') = Inl (type_error ''offline'')"
    by (simp add: client_of_def)
  have d: "spec_field ?r (js ''data'') = Some ?u" by code_simp
  have n: "spec_field ?u (js ''name'') = Some (JStr (js ''X''))" by code_simp
  from useUser_effect [of None True useUser_initial ?ok] q1 d n
  have A: "fst (fetchUserData (Some ?ok) True useUser_initial)
             = [SetIsLoading True, SdkQuery (js ''host.user''), SetUser ?u, SetIsLoading False]
      \<and> isLoading (state_at_query useUser_initial (fst (fetchUserData (Some ?ok) True useUser_initial)))
      \<and> \<not> isLoading (snd (fetchUserData (Some ?ok) True useUser_initial))
      \<and> spec_field (user (snd (fetchUserData (Some ?ok) True useUser_initial))) (js ''name'')
          = Some (JStr (js ''X''))"
    by (simp add: state_at_query_def)
  from useUser_effect [of None True useUser_initial ?bad] q2
  have B: "fst (fetchUserData (Some ?bad) True useUser_initial)
             = [SetIsLoading True, SdkQuery (js ''host.user''),
                Console LError ''Failed to fetch user data:'', SetIsLoading False]
      \<and> \<not> isLoading (snd (fetchUserData (Some ?bad) True useUser_initial))
      \<and> user (snd (fetchUserData (Some ?bad) True useUser_initial)) = JUndefined"
    by simp
  from useUser_effect [of None True useUser_initial ?ok]
  have C: "fst (fetchUserData None True useUser_initial) = []
      \<and> isLoading (snd (fetchUserData None True useUser_initial))
      \<and> user (snd (fetchUserData None True useUser_initial)) = JUndefined"
    by simp
  from A B C show ?thesis by (simp add: Let_def state_at_query_def)
qed

subsection \<open>When the handlers themselves throw\<close>

lemma getErrorMessage_unconvertible:
  "getErrorMessage unconvertible_reason = Inl (type_error ''Cannot convert object to primitive value'')"
  by (simp add: getErrorMessage_def unconvertible_reason_def bind_sum_def)

lemma getApplicationContext_soft:
  assumes "\<forall>e. query c (js ''application.context'') = Inl e \<longrightarrow> (\<exists>m. getErrorMessage e = Inr m)"
  shows "\<exists>v. snd (getApplicationContext (Some c)) = Inr v"
  using assms by (auto simp: getApplicationContext_snd split: sum.splits)

lemma getApplicationContext_rejected_query:
  assumes "query c (js ''application.context'') = Inl e" and "getErrorMessage e = Inr m"
  shows "snd (getApplicationContext (Some c)) = Inr JNull"
  using assms by (simp add: getApplicationContext_snd)

text \<open>
  C7. \<open>getApplicationContext\<close> returns \<open>null\<close> without a client and, nearly always, when
  the query rejects (lemma \<open>getApplicationContext_rejected_query\<close>). But its \<open>catch\<close> block
  calls \<open>getErrorMessage\<close>, and \<open>String(error)\<close> throws for a reason such as
  \<open>{ toString: 1 }\<close>: for a query that rejects with that reason \<open>getApplicationContext\<close>
  itself rejects, with the TypeError.
\<close>

theorem getApplicationContext_rejects:
  "snd (getApplicationContext (Some (client_of (Inl unconvertible_reason) (Inr JNull))))
     = Inl (type_error ''Cannot convert object to primitive value'')"
  by (simp add: getApplicationContext_snd client_of_def getErrorMessage_unconvertible)

lemma get_prop_throws_Error: "get_prop v k = Inl t \<Longrightarrow> instanceof_Error t"
  by (cases v) (auto simp: instanceof_type_error)

lemma read_value_throws_Error: "read_value item k = Inl t \<Longrightarrow> instanceof_Error t"
  by (auto simp: read_value_def bind_sum_def opt_chain_def
        split: sum.splits if_splits dest: get_prop_throws_Error)

lemma map_result_throws_Error: "snd (map_result item) = Inl t \<Longrightarrow> instanceof_Error t"
  by (auto simp: map_result_def snd_eff bind_sum_def Let_def
        split: sum.splits if_splits dest: read_value_throws_Error)

lemma call_trim_throws_Error: "call_trim v = Inl t \<Longrightarrow> instanceof_Error t"
  by (cases v) (auto simp: instanceof_type_error)

lemma keep_item_throws_Error: "snd (keep_item it) = Inl t \<Longrightarrow> instanceof_Error t"
  by (auto simp: keep_item_def snd_eff bind_sum_def
        split: sum.splits dest: call_trim_throws_Error)

lemma eff_map_throws:
  assumes "\<And>x t. snd (f x) = Inl t \<Longrightarrow> P t"
  shows "snd (eff_map f xs) = Inl t \<Longrightarrow> P t"
  by (induction xs arbitrary: t)
     (auto simp: snd_eff bind_sum_def split: sum.splits dest: assms)

lemma eff_filter_throws:
  assumes "\<And>x t. snd (p x) = Inl t \<Longrightarrow> P t"
  shows "snd (eff_filter p xs) = Inl t \<Longrightarrow> P t"
  by (induction xs arbitrary: t)
     (auto simp: snd_eff bind_sum_def split: sum.splits dest: assms)

lemma unpack_results_throws_Error:
  assumes "snd (unpack_results response) = Inl t"
  shows "instanceof_Error t"
proof -
  have m: "snd (eff_map map_result rs) = Inl t \<Longrightarrow> instanceof_Error t" for rs
    by (rule eff_map_throws [where f = map_result]) (rule map_result_throws_Error)
  have f: "snd (eff_filter keep_item its) = Inl t \<Longrightarrow> instanceof_Error t" for its
    by (rule eff_filter_throws [where p = keep_item]) (rule keep_item_throws_Error)
  from assms show ?thesis
    by (auto simp: unpack_results_def results_chain_spec snd_eff bind_sum_def
          split: if_splits jsval.splits sum.splits dest: m f)
qed

lemma fetch_body_throws:
  assumes "snd (fetch_body c p l) = Inl t"
  shows "instanceof_Error t \<or> (\<exists>name params. mutate c name params = Inl t)"
proof -
  obtain pid where pid: "snd (getPreviewContextId (Some c)) = Inr pid"
    by (simp add: getPreviewContextId_snd)
  from assms show ?thesis
    unfolding fetch_body_snd [OF pid]
    by (auto simp: bind_sum_def split: if_splits sum.splits dest: unpack_results_throws_Error)
qed

text \<open>Apart from a GraphQL call that rejects with a reason \<open>String\<close> cannot convert,
  every path of \<open>fetchDictionaryItems\<close> resolves, and the failing ones resolve to \<open>[]\<close>.\<close>

lemma fetchDictionaryItems_no_client:
  "fetchDictionaryItems None p l = ([Console LError ''Sitecore client is not initialized''], Inr [])"
  by (simp add: fetchDictionaryItems_def eff_bind_def eff_emit_def eff_ret_def)

lemma fetchDictionaryItems_resolves:
  assumes "\<forall>name params e. mutate c name params = Inl e \<longrightarrow> (\<exists>m. getErrorMessage e = Inr m)"
  shows "\<exists>items. snd (fetchDictionaryItems (Some c) p l) = Inr items"
proof (cases "isValidSitecorePath p \<and> isValidLanguageCode l")
  case False
  then show ?thesis
    by (auto simp: fetchDictionaryItems_def snd_eff bind_sum_def)
next
  case True
  show ?thesis
  proof (cases "snd (fetch_body c p l)")
    case (Inr items)
    with True show ?thesis by (simp add: fetchDictionaryItems_valid_snd)
  next
    case (Inl t)
    then have "instanceof_Error t \<or> (\<exists>name params. mutate c name params = Inl t)"
      by (rule fetch_body_throws)
    with assms obtain m where "getErrorMessage t = Inr m"
      using getErrorMessage_Error by blast
    with True Inl show ?thesis by (simp add: fetchDictionaryItems_valid_snd)
  qed
qed

lemma fetchDictionaryItems_failure_empty:
  assumes "isValidSitecorePath p" and "isValidLanguageCode l"
    and "snd (fetch_body c p l) = Inl t" and "getErrorMessage t = Inr m"
  shows "snd (fetchDictionaryItems (Some c) p l) = Inr []"
  using assms by (simp add: fetchDictionaryItems_valid_snd)

lemma fetchDictionaryItems_no_preview_id:
  assumes "isValidSitecorePath p" and "isValidLanguageCode l"
    and "snd (getPreviewContextId (Some c)) = Inr pid" and "\<not> truthy pid"
  shows "snd (fetchDictionaryItems (Some c) p l) = Inr []"
  using assms by (simp add: fetchDictionaryItems_valid_snd fetch_body_snd)

text \<open>
  C1. \<open>fetchDictionaryItems\<close> resolves to a list on every path but one (lemmas
  \<open>fetchDictionaryItems_no_client\<close>, \<open>fetchDictionaryItems_resolves\<close>), and to the empty
  list on the failing ones. The exception: its \<open>catch\<close> block calls \<open>getErrorMessage\<close>,
  and \<open>String(error)\<close> throws for a reason such as \<open>{ toString: 1 }\<close>. When the GraphQL call
  rejects with that reason, \<open>fetchDictionaryItems\<close> rejects with the TypeError.
\<close>

theorem fetchDictionaryItems_rejects:
  "snd (fetchDictionaryItems (Some (client_of (Inr ctx_response) (Inl unconvertible_reason)))
          (js ''/sitecore/d'') (js ''en''))
     = Inl (type_error ''Cannot convert object to primitive value'')"
proof -
  let ?c = "client_of (Inr ctx_response) (Inl unconvertible_reason)"
  have 1: "isValidSitecorePath (js ''/sitecore/d'')" by code_simp
  have 2: "isValidLanguageCode (js ''en'')" by code_simp
  have 3: "snd (getPreviewContextId (Some ?c)) = Inr (JStr (js ''ctx-1''))"
    unfolding getPreviewContextId_snd getApplicationContext_snd
    by (simp add: client_of_def) code_simp
  have 4: "truthy (JStr (js ''ctx-1''))" by code_simp
  have "snd (fetch_body ?c (js ''/sitecore/d'') (js ''en'')) = Inl unconvertible_reason"
    unfolding fetch_body_snd [OF 3] using 4 by (simp add: client_of_def bind_sum_def)
  with 1 2 show ?thesis
    by (simp add: fetchDictionaryItems_valid_snd getErrorMessage_unconvertible)
qed

end
